theory Spec2Isabelle
  imports Complex_Main "HOL-Library.Multiset"
begin

section \<open>JavaScript numbers, strings and values\<close>

text \<open>
  The program is TypeScript. Its numbers are IEEE 754 doubles: the model keeps the three
  non-finite values (\<open>NaN\<close>, \<open>+Infinity\<close>, \<open>-Infinity\<close>) apart and takes every finite
  double as the exact rational it denotes. Addition, multiplication and the reading of a
  decimal literal give the exact result rounded to the nearest double, ties to even, with
  gradual underflow and overflow to infinity (\<open>round_double\<close>). Only the sign of zero is
  not kept: \<open>-0\<close> and \<open>+0\<close> are both \<open>Fin 0\<close>. Strings are lists of characters; the case
  mapping and the white space set are those of the ASCII range.
\<close>

datatype jsnum = Fin rat | PInf | NInf | NaN

text \<open>The binary exponent of a positive rational: \<open>2 ^ binade q \<le> q < 2 ^ (binade q + 1)\<close>.\<close>

function binade :: "rat \<Rightarrow> int" where
  "binade q = (if q \<le> 0 then 0
               else if 2 \<le> q then binade (q / 2) + 1
               else if q < 1 then binade (q * 2) - 1
               else 0)"
  by pat_completeness auto

termination binade
proof (relation "measure (\<lambda>q. nat (2 * \<lceil>1 / q\<rceil> + \<lfloor>q\<rfloor>))")
  show "wf (measure (\<lambda>q::rat. nat (2 * \<lceil>1 / q\<rceil> + \<lfloor>q\<rfloor>)))" by simp
next
  fix q :: rat
  assume a: "\<not> q \<le> 0" "2 \<le> q"
  have "0 < 1 / q" "1 / q \<le> 1" "0 < 1 / (q / 2)" "1 / (q / 2) \<le> 1" using a by simp_all
  then have "\<lceil>1 / q\<rceil> = 1" "\<lceil>1 / (q / 2)\<rceil> = 1" by (simp_all only: ceiling_eq_iff of_int_1 diff_self)
  moreover have "q / 2 \<le> q - 1" using a by simp
  then have "\<lfloor>q / 2\<rfloor> \<le> \<lfloor>q - 1\<rfloor>" by (rule floor_mono)
  then have "\<lfloor>q / 2\<rfloor> < \<lfloor>q\<rfloor>" by simp
  moreover have "0 \<le> \<lfloor>q / 2\<rfloor>" using a by simp
  ultimately have "nat (2 * \<lceil>1 / (q / 2)\<rceil> + \<lfloor>q / 2\<rfloor>) < nat (2 * \<lceil>1 / q\<rceil> + \<lfloor>q\<rfloor>)"
    by linarith
  then show "(q / 2, q) \<in> measure (\<lambda>q. nat (2 * \<lceil>1 / q\<rceil> + \<lfloor>q\<rfloor>))" by simp
next
  fix q :: rat
  assume a: "\<not> q \<le> 0" "\<not> 2 \<le> q" "q < 1"
  have fq: "\<lfloor>q\<rfloor> = 0" using a by (simp add: floor_eq_iff)
  show "(q * 2, q) \<in> measure (\<lambda>q. nat (2 * \<lceil>1 / q\<rceil> + \<lfloor>q\<rfloor>))"
  proof (cases "q < 1 / 2")
    case True
    define x where "x = 1 / q"
    have x: "2 < x" using a True unfolding x_def by (simp add: field_simps)
    have "x / 2 \<le> x - 1" using x by simp
    then have "\<lceil>x / 2\<rceil> \<le> \<lceil>x - 1\<rceil>" by (rule ceiling_mono)
    then have "\<lceil>x / 2\<rceil> < \<lceil>x\<rceil>" by simp
    then have r: "\<lceil>(1 / q) / 2\<rceil> < \<lceil>1 / q\<rceil>" by (simp only: x_def)
    have e: "1 / (q * 2) = (1 / q) / 2" by simp
    have "\<lceil>1 / (q * 2)\<rceil> < \<lceil>1 / q\<rceil>" by (simp only: e r)
    moreover have "\<lfloor>q * 2\<rfloor> = 0" using a True by (simp add: floor_eq_iff)
    moreover have "0 < \<lceil>1 / (q * 2)\<rceil>" using a by simp
    ultimately have "nat (2 * \<lceil>1 / (q * 2)\<rceil> + \<lfloor>q * 2\<rfloor>) < nat (2 * \<lceil>1 / q\<rceil> + \<lfloor>q\<rfloor>)"
      using fq by linarith
    then show ?thesis by simp
  next
    case False
    then have h: "1 \<le> q * 2" by simp
    have "\<lfloor>q * 2\<rfloor> = 1" using a h by (simp add: floor_eq_iff)
    moreover have "0 < 1 / (q * 2)" "1 / (q * 2) \<le> 1" using a h by simp_all
    then have "\<lceil>1 / (q * 2)\<rceil> = 1" by (simp only: ceiling_eq_iff of_int_1 diff_self)
    moreover have "1 < 1 / q" using a by simp
    then have "2 \<le> \<lceil>1 / q\<rceil>" by (simp add: less_ceiling_iff)
    ultimately have "nat (2 * \<lceil>1 / (q * 2)\<rceil> + \<lfloor>q * 2\<rfloor>) < nat (2 * \<lceil>1 / q\<rceil> + \<lfloor>q\<rfloor>)"
      using fq by linarith
    then show ?thesis by simp
  qed
qed

declare binade.simps [simp del]

text \<open>The nearest integer, a tie going to the even neighbour.\<close>

definition round_half_even :: "rat \<Rightarrow> int" where
  "round_half_even x =
     (let f = \<lfloor>x\<rfloor>; d = x - of_int f
      in if d < 1 / 2 then f else if 1 / 2 < d then f + 1 else if even f then f else f + 1)"

text \<open>
  The double nearest to a rational. The spacing of the doubles around \<open>q\<close> is
  \<open>2 ^ (e - 52)\<close>, where \<open>e\<close> is the binary exponent of \<open>\<bar>q\<bar>\<close>, and no less than \<open>-1022\<close>
  (below \<open>2 ^ -1022\<close> the doubles are equally spaced, \<open>2 ^ -1074\<close> apart); a result that
  reaches \<open>2 ^ 1024\<close> is infinite.
\<close>

definition round_double :: "rat \<Rightarrow> jsnum" where
  "round_double q =
     (if q = 0 then Fin 0
      else let a = \<bar>q\<bar>;
               e = max (binade a) (- 1022);
               u = 2 powi (e - 52);
               r = of_int (round_half_even (a / u)) * u
           in if 2 powi 1024 \<le> r then (if 0 < q then PInf else NInf)
              else Fin (if 0 < q then r else - r))"

instantiation jsnum :: "{zero, plus, uminus, minus, abs, times}"
begin

definition zero_jsnum :: jsnum where
  "zero_jsnum = Fin 0"

fun plus_jsnum :: "jsnum \<Rightarrow> jsnum \<Rightarrow> jsnum" where
  "plus_jsnum NaN _ = NaN"
| "plus_jsnum _ NaN = NaN"
| "plus_jsnum (Fin a) (Fin b) = round_double (a + b)"
| "plus_jsnum PInf NInf = NaN"
| "plus_jsnum NInf PInf = NaN"
| "plus_jsnum PInf _ = PInf"
| "plus_jsnum _ PInf = PInf"
| "plus_jsnum NInf _ = NInf"
| "plus_jsnum _ NInf = NInf"

fun uminus_jsnum :: "jsnum \<Rightarrow> jsnum" where
  "uminus_jsnum (Fin a) = Fin (- a)"
| "uminus_jsnum PInf = NInf"
| "uminus_jsnum NInf = PInf"
| "uminus_jsnum NaN = NaN"

definition minus_jsnum :: "jsnum \<Rightarrow> jsnum \<Rightarrow> jsnum" where
  "minus_jsnum a b = a + (- b)"

fun abs_jsnum :: "jsnum \<Rightarrow> jsnum" where
  "abs_jsnum (Fin a) = Fin \<bar>a\<bar>"
| "abs_jsnum PInf = PInf"
| "abs_jsnum NInf = PInf"
| "abs_jsnum NaN = NaN"

fun times_jsnum :: "jsnum \<Rightarrow> jsnum \<Rightarrow> jsnum" where
  "times_jsnum NaN _ = NaN"
| "times_jsnum _ NaN = NaN"
| "times_jsnum (Fin a) (Fin b) = round_double (a * b)"
| "times_jsnum (Fin a) PInf = (if a = 0 then NaN else if 0 < a then PInf else NInf)"
| "times_jsnum (Fin a) NInf = (if a = 0 then NaN else if 0 < a then NInf else PInf)"
| "times_jsnum PInf (Fin b) = (if b = 0 then NaN else if 0 < b then PInf else NInf)"
| "times_jsnum NInf (Fin b) = (if b = 0 then NaN else if 0 < b then NInf else PInf)"
| "times_jsnum PInf PInf = PInf"
| "times_jsnum NInf NInf = PInf"
| "times_jsnum PInf NInf = NInf"
| "times_jsnum NInf PInf = NInf"

instance ..

end

text \<open>\<open>x > 0\<close>, \<open>x < 0\<close> and \<open>isNaN(x)\<close>: every comparison with \<open>NaN\<close> is false.\<close>

fun js_gt0 :: "jsnum \<Rightarrow> bool" where
  "js_gt0 (Fin a) = (0 < a)"
| "js_gt0 PInf = True"
| "js_gt0 NInf = False"
| "js_gt0 NaN = False"

fun js_lt0 :: "jsnum \<Rightarrow> bool" where
  "js_lt0 (Fin a) = (a < 0)"
| "js_lt0 PInf = False"
| "js_lt0 NInf = True"
| "js_lt0 NaN = False"

definition isNaN :: "jsnum \<Rightarrow> bool" where
  "isNaN x = (x = NaN)"

datatype jsval = JUndefined | JNull | JBool bool | JNum jsnum | JStr string

text \<open>Truthiness, as \<open>!v\<close>, \<open>v || d\<close> and \<open>v && w\<close> read it.\<close>

fun truthy :: "jsval \<Rightarrow> bool" where
  "truthy JUndefined = False"
| "truthy JNull = False"
| "truthy (JBool b) = b"
| "truthy (JNum n) = (n \<noteq> NaN \<and> n \<noteq> Fin 0)"
| "truthy (JStr s) = (s \<noteq> [])"

definition js_or :: "jsval \<Rightarrow> jsval \<Rightarrow> jsval" where
  "js_or v d = (if truthy v then v else d)"

text \<open>
  What the platform supplies and the repository only calls: the clock, the part of
  \<open>Date.parse\<close> outside the date-only ISO form, the printing of numbers and dates
  (\<open>String(n)\<close>, \<open>toISOString\<close>, \<open>Intl\<close>) and \<open>Number(s)\<close>. They are parameters of the
  model; every theorem holds for all of them.
\<close>

record js_env =
  now_ms :: int
  other_date_parse :: "string \<Rightarrow> int option"
  iso_date_of_ms :: "int \<Rightarrow> string"
  number_to_string :: "jsnum \<Rightarrow> string"
  string_to_number :: "string \<Rightarrow> jsnum"
  intl_number_format :: "jsnum \<Rightarrow> string"
  intl_date_format :: "int \<Rightarrow> string"

fun js_String :: "js_env \<Rightarrow> jsval \<Rightarrow> string" where
  "js_String env JUndefined = ''undefined''"
| "js_String env JNull = ''null''"
| "js_String env (JBool b) = (if b then ''true'' else ''false'')"
| "js_String env (JNum n) = number_to_string env n"
| "js_String env (JStr s) = s"

subsection \<open>String operations\<close>

definition is_digit :: "char \<Rightarrow> bool" where
  "is_digit c = (c \<in> set ''0123456789'')"

definition digit_val :: "char \<Rightarrow> nat" where
  "digit_val c = of_char c - 48"

definition digits_val :: "string \<Rightarrow> nat" where
  "digits_val ds = foldl (\<lambda>acc c. acc * 10 + digit_val c) 0 ds"

text \<open>White space as \<open>trim\<close>, \<open>\s\<close> and \<open>parseFloat\<close> skip it: space, tab, LF, VT, FF, CR.\<close>

definition is_space :: "char \<Rightarrow> bool" where
  "is_space c = (c \<in> {CHR '' '', CHR 0x09, CHR 0x0A, CHR 0x0B, CHR 0x0C, CHR 0x0D})"

definition trim :: "string \<Rightarrow> string" where
  "trim s = rev (dropWhile is_space (rev (dropWhile is_space s)))"

definition lower_char :: "char \<Rightarrow> char" where
  "lower_char c =
     (case map_of (zip ''ABCDEFGHIJKLMNOPQRSTUVWXYZ'' ''abcdefghijklmnopqrstuvwxyz'') c of
        Some d \<Rightarrow> d
      | None \<Rightarrow> c)"

definition toLowerCase :: "string \<Rightarrow> string" where
  "toLowerCase s = map lower_char s"

fun starts_with :: "string \<Rightarrow> string \<Rightarrow> bool" where
  "starts_with s [] = True"
| "starts_with [] (k # ks) = False"
| "starts_with (c # cs) (k # ks) = (c = k \<and> starts_with cs ks)"

text \<open>\<open>s.includes(k)\<close>: \<open>k\<close> occurs in \<open>s\<close> as a contiguous run.\<close>

fun str_includes :: "string \<Rightarrow> string \<Rightarrow> bool" where
  "str_includes [] k = (k = [])"
| "str_includes (c # cs) k = (starts_with (c # cs) k \<or> str_includes cs k)"

text \<open>\<open>s.padStart(2, '0')\<close>.\<close>

definition padStart2 :: "string \<Rightarrow> string" where
  "padStart2 s = replicate (2 - length s) (CHR ''0'') @ s"

text \<open>
  \<open>s.replace(/[...]+/g, ' ')\<close>: every maximal run of characters of the class becomes one
  space.
\<close>

function collapse_runs :: "(char \<Rightarrow> bool) \<Rightarrow> string \<Rightarrow> string" where
  "collapse_runs P [] = []"
| "collapse_runs P (c # cs) =
     (if P c then CHR '' '' # collapse_runs P (dropWhile P cs) else c # collapse_runs P cs)"
  by pat_completeness auto
termination
  by (relation "measure (\<lambda>(P, s). length s)")
     (auto simp: le_imp_less_Suc length_dropWhile_le)

text \<open>Comparison of strings with \<open><=\<close>: lexicographic in the character codes.\<close>

fun str_le :: "string \<Rightarrow> string \<Rightarrow> bool" where
  "str_le [] t = True"
| "str_le (c # cs) [] = False"
| "str_le (c # cs) (d # ds) =
     (if c = d then str_le cs ds else (of_char c :: nat) < of_char d)"

section \<open>Dates\<close>

text \<open>
  \<open>new Date(s).getTime()\<close>. ECMAScript fixes the result for the date-only ISO form
  \<open>YYYY-MM-DD\<close> with a month of 01..12 and a day of that month: midnight UTC of that day,
  in milliseconds since 1970-01-01. Every other string is left to \<open>other_date_parse\<close>
  (the other ISO forms and the formats an engine accepts on its own); \<open>None\<close> is the
  time value \<open>NaN\<close> of an invalid date.
\<close>

definition is_leap :: "int \<Rightarrow> bool" where
  "is_leap y = (y mod 4 = 0 \<and> (y mod 100 \<noteq> 0 \<or> y mod 400 = 0))"

definition days_in_month :: "int \<Rightarrow> int \<Rightarrow> int" where
  "days_in_month y m =
     (if m = 2 then (if is_leap y then 29 else 28)
      else if m = 4 \<or> m = 6 \<or> m = 9 \<or> m = 11 then 30 else 31)"

definition days_from_civil :: "int \<Rightarrow> int \<Rightarrow> int \<Rightarrow> int" where
  "days_from_civil y m d =
     (let y' = (if m \<le> 2 then y - 1 else y);
          era = y' div 400;
          yoe = y' - era * 400;
          doy = (153 * (if 2 < m then m - 3 else m + 9) + 2) div 5 + d - 1;
          doe = yoe * 365 + yoe div 4 - yoe div 100 + doy
      in era * 146097 + doe - 719468)"

definition iso_date_only :: "string \<Rightarrow> int option" where
  "iso_date_only s =
     (if length s = 10 \<and> s ! 4 = CHR ''-'' \<and> s ! 7 = CHR ''-''
         \<and> list_all is_digit (take 4 s) \<and> list_all is_digit (take 2 (drop 5 s))
         \<and> list_all is_digit (drop 8 s)
      then
        (let y = int (digits_val (take 4 s));
             m = int (digits_val (take 2 (drop 5 s)));
             d = int (digits_val (drop 8 s))
         in if 1 \<le> m \<and> m \<le> 12 \<and> 1 \<le> d \<and> d \<le> days_in_month y m
            then Some (days_from_civil y m d * 86400000) else None)
      else None)"

definition Date_getTime :: "js_env \<Rightarrow> string \<Rightarrow> int option" where
  "Date_getTime env s =
     (case iso_date_only s of Some t \<Rightarrow> Some t | None \<Rightarrow> other_date_parse env s)"

text \<open>\<open>new Date().toISOString().split('T')[0]\<close>: today's date.\<close>

definition today :: "js_env \<Rightarrow> string" where
  "today env = iso_date_of_ms env (now_ms env)"

subsection \<open>utils/formatters.ts\<close>

definition formatCurrency :: "js_env \<Rightarrow> jsnum \<Rightarrow> string" where
  "formatCurrency env amount = intl_number_format env amount"

definition formatDate :: "js_env \<Rightarrow> string \<Rightarrow> string" where
  "formatDate env dateStr =
     (if dateStr = [] then []
      else case Date_getTime env dateStr of
             None \<Rightarrow> dateStr
           | Some t \<Rightarrow> intl_date_format env t)"

section \<open>The data model (types.ts)\<close>

datatype TrxType = INV | Payment | INVOICE | PAYMENT

fun trxType_text :: "TrxType \<Rightarrow> string" where
  "trxType_text INV = ''INV''"
| "trxType_text Payment = ''Payment''"
| "trxType_text INVOICE = ''INVOICE''"
| "trxType_text PAYMENT = ''PAYMENT''"

text \<open>
  The fields that the file reader fills with \<open>findValue(...) || ''\<close> hold whatever
  value the cell had, so they are values, not strings; \<open>glAgency\<close> and \<open>note\<close> are
  \<open>JUndefined\<close> where the source leaves them out.
\<close>

record Transaction =
  trxId :: string
  trxDate :: string
  number :: string
  region :: jsval
  siteLocation :: jsval
  trxType :: TrxType
  originalAmount :: jsnum
  customerName :: string
  glAgency :: jsval
  trxNote :: jsval

record StatementConfig =
  operatingUnit :: string
  startDate :: string
  endDate :: string
  openingBalance :: jsnum
  logoUrl :: "string option"

section \<open>The ledger merger and balance engine (services/pdfGenerator.ts)\<close>

text \<open>A merged entry: the transaction's fields and its rendering amount.\<close>

record LedgerEntry = Transaction +
  calculatedAmount :: jsnum

definition in_statement :: "string \<Rightarrow> StatementConfig \<Rightarrow> Transaction \<Rightarrow> bool" where
  "in_statement selectedCustomer config t =
     (customerName t = selectedCustomer
      \<and> str_le (startDate config) (trxDate t)
      \<and> str_le (trxDate t) (endDate config))"

definition refTrx :: "Transaction list \<Rightarrow> string \<Rightarrow> Transaction option" where
  "refTrx manualTransactions selectedCustomer =
     (case filter (\<lambda>t. customerName t = selectedCustomer) manualTransactions of
        [] \<Rightarrow> None
      | r # _ \<Rightarrow> Some r)"

definition toInvoice :: "Transaction option \<Rightarrow> Transaction \<Rightarrow> LedgerEntry" where
  "toInvoice ref t =
     \<lparr> trxId = trxId t, trxDate = trxDate t, number = number t,
       region = (case ref of Some r \<Rightarrow> region r | None \<Rightarrow> region t),
       siteLocation = (case ref of Some r \<Rightarrow> siteLocation r | None \<Rightarrow> siteLocation t),
       trxType = INVOICE, originalAmount = originalAmount t,
       customerName = customerName t, glAgency = glAgency t, trxNote = trxNote t,
       calculatedAmount = \<bar>originalAmount t\<bar> \<rparr>"

definition toPayment :: "Transaction \<Rightarrow> LedgerEntry" where
  "toPayment t =
     \<lparr> trxId = trxId t, trxDate = trxDate t, number = number t,
       region = region t, siteLocation = siteLocation t,
       trxType = PAYMENT, originalAmount = originalAmount t,
       customerName = customerName t, glAgency = glAgency t, trxNote = trxNote t,
       calculatedAmount = - \<bar>originalAmount t\<bar> \<rparr>"

definition invoiceTrxs ::
  "Transaction list \<Rightarrow> Transaction list \<Rightarrow> string \<Rightarrow> StatementConfig \<Rightarrow> LedgerEntry list" where
  "invoiceTrxs fileTransactions manualTransactions selectedCustomer config =
     map (toInvoice (refTrx manualTransactions selectedCustomer))
       (filter (in_statement selectedCustomer config) fileTransactions)"

definition paymentTrxs :: "Transaction list \<Rightarrow> string \<Rightarrow> StatementConfig \<Rightarrow> LedgerEntry list" where
  "paymentTrxs manualTransactions selectedCustomer config =
     map toPayment (filter (in_statement selectedCustomer config) manualTransactions)"

text \<open>
  \<open>Array.prototype.sort\<close> with a comparator. The sort is stable; a comparator result of
  \<open>NaN\<close> (here \<open>None\<close>) counts as \<open>+0\<close>. The model inserts the elements from the right,
  each before the first element it does not come after, which is the stable order for
  every consistent comparator; for an inconsistent one ECMAScript leaves the order to the
  engine, and this is one such order.
\<close>

definition sort_compare :: "('a \<Rightarrow> 'a \<Rightarrow> int option) \<Rightarrow> 'a \<Rightarrow> 'a \<Rightarrow> int" where
  "sort_compare comparefn x y = (case comparefn x y of None \<Rightarrow> 0 | Some v \<Rightarrow> v)"

fun insert_sorted :: "('a \<Rightarrow> 'a \<Rightarrow> int option) \<Rightarrow> 'a \<Rightarrow> 'a list \<Rightarrow> 'a list" where
  "insert_sorted comparefn x [] = [x]"
| "insert_sorted comparefn x (y # ys) =
     (if sort_compare comparefn x y \<le> 0 then x # y # ys
      else y # insert_sorted comparefn x ys)"

definition js_sort :: "('a \<Rightarrow> 'a \<Rightarrow> int option) \<Rightarrow> 'a list \<Rightarrow> 'a list" where
  "js_sort comparefn xs = foldr (insert_sorted comparefn) xs []"

text \<open>\<open>(a, b) => new Date(a.trxDate).getTime() - new Date(b.trxDate).getTime()\<close>\<close>

definition by_date :: "js_env \<Rightarrow> LedgerEntry \<Rightarrow> LedgerEntry \<Rightarrow> int option" where
  "by_date env a b =
     (case (Date_getTime env (trxDate a), Date_getTime env (trxDate b)) of
        (Some ta, Some tb) \<Rightarrow> Some (ta - tb)
      | _ \<Rightarrow> None)"

definition allTrxs ::
  "js_env \<Rightarrow> Transaction list \<Rightarrow> Transaction list \<Rightarrow> string \<Rightarrow> StatementConfig
     \<Rightarrow> LedgerEntry list" where
  "allTrxs env fileTransactions manualTransactions selectedCustomer config =
     js_sort (by_date env)
       (invoiceTrxs fileTransactions manualTransactions selectedCustomer config
        @ paymentTrxs manualTransactions selectedCustomer config)"

text \<open>One row of the table body, in the column order of the source.\<close>

record TableRow =
  col_date :: string
  col_number :: string
  col_region :: jsval
  col_site :: jsval
  col_type :: string
  col_amount :: string
  col_balance :: string

definition table_row :: "js_env \<Rightarrow> jsnum \<Rightarrow> LedgerEntry \<Rightarrow> TableRow" where
  "table_row env runningBalance t =
     (let amountStr = ''SAR '' @ formatCurrency env \<bar>calculatedAmount t\<bar>;
          displayAmount = (if trxType t = PAYMENT then ''-'' @ amountStr else amountStr);
          balanceStr = ''SAR '' @ formatCurrency env runningBalance
      in \<lparr> col_date = formatDate env (trxDate t), col_number = number t,
            col_region = region t, col_site = siteLocation t,
            col_type = trxType_text (trxType t),
            col_amount = displayAmount, col_balance = balanceStr \<rparr>)"

text \<open>
  \<open>allTrxs.map(t => { runningBalance += t.calculatedAmount; ... })\<close>: the rows, and the
  value of \<open>runningBalance\<close> after the walk.
\<close>

fun tableBody :: "js_env \<Rightarrow> jsnum \<Rightarrow> LedgerEntry list \<Rightarrow> TableRow list \<times> jsnum" where
  "tableBody env runningBalance [] = ([], runningBalance)"
| "tableBody env runningBalance (t # ts) =
     (let runningBalance' = runningBalance + calculatedAmount t;
          (rows, final) = tableBody env runningBalance' ts
      in (table_row env runningBalance' t # rows, final))"

text \<open>What the generated document shows; the page layout and the logo are left out.\<close>

record Statement =
  st_customer :: string
  st_period :: string
  st_operatingUnit :: string
  st_openingBalance :: string
  st_body :: "TableRow list"
  finalBalance :: jsnum
  st_totalBalanceDue :: string
  fileName :: string

definition generateStatementPDF ::
  "js_env \<Rightarrow> Transaction list \<Rightarrow> Transaction list \<Rightarrow> string \<Rightarrow> StatementConfig
     \<Rightarrow> Statement" where
  "generateStatementPDF env fileTransactions manualTransactions selectedCustomer config =
     (let (body, final) =
            tableBody env (openingBalance config)
              (allTrxs env fileTransactions manualTransactions selectedCustomer config)
      in \<lparr> st_customer = selectedCustomer,
            st_period = formatDate env (startDate config) @ '' - ''
                          @ formatDate env (endDate config),
            st_operatingUnit = operatingUnit config,
            st_openingBalance = ''SAR '' @ formatCurrency env (openingBalance config),
            st_body = body,
            finalBalance = final,
            st_totalBalanceDue = ''SAR '' @ formatCurrency env final,
            fileName = ''SOA_'' @ selectedCustomer @ ''_'' @ endDate config @ ''.pdf'' \<rparr>)"

section \<open>The field resolver (components/FileUpload.tsx, findValue)\<close>

text \<open>
  A record of the sheet: its keys in the order of \<open>Object.keys\<close>, each with its value.
  \<open>row[key]\<close> of a key the record lacks is \<open>undefined\<close>.
\<close>

type_synonym row = "(string \<times> jsval) list"

definition get_prop :: "row \<Rightarrow> string \<Rightarrow> jsval" where
  "get_prop r k = (case map_of r k of None \<Rightarrow> JUndefined | Some v \<Rightarrow> v)"

definition rowKeys :: "row \<Rightarrow> string list" where
  "rowKeys r = map fst r"

text \<open>\<open>v !== undefined && v !== null && v !== ""\<close>\<close>

definition non_empty :: "jsval \<Rightarrow> bool" where
  "non_empty v = (v \<noteq> JUndefined \<and> v \<noteq> JNull \<and> v \<noteq> JStr [])"

text \<open>
  What each loop does with one candidate: the value it would return, if it returns.
  The second and third look at the first key that matches only
  (\<open>rowKeys.find\<close>), and a key that is the empty string is falsy.
\<close>

definition exact_hit :: "row \<Rightarrow> string \<Rightarrow> jsval option" where
  "exact_hit r key = (if non_empty (get_prop r key) then Some (get_prop r key) else None)"

definition found_hit :: "row \<Rightarrow> string option \<Rightarrow> jsval option" where
  "found_hit r found =
     (case found of
        None \<Rightarrow> None
      | Some k \<Rightarrow> if k \<noteq> [] \<and> non_empty (get_prop r k) then Some (get_prop r k) else None)"

definition insensitive_hit :: "row \<Rightarrow> string \<Rightarrow> jsval option" where
  "insensitive_hit r key =
     found_hit r (find (\<lambda>k. toLowerCase (trim k) = toLowerCase (trim key)) (rowKeys r))"

definition partial_hit :: "row \<Rightarrow> string \<Rightarrow> jsval option" where
  "partial_hit r key =
     found_hit r (find (\<lambda>k. str_includes (toLowerCase k) (toLowerCase key)) (rowKeys r))"

text \<open>\<open>for (const key of possibleKeys) { ... return ...; }\<close>\<close>

fun first_return :: "(string \<Rightarrow> jsval option) \<Rightarrow> string list \<Rightarrow> jsval option" where
  "first_return hit [] = None"
| "first_return hit (key # keys) =
     (case hit key of Some v \<Rightarrow> Some v | None \<Rightarrow> first_return hit keys)"

definition findValue :: "row \<Rightarrow> string list \<Rightarrow> jsval" where
  "findValue r possibleKeys =
     (case first_return (exact_hit r) possibleKeys of
        Some v \<Rightarrow> v
      | None \<Rightarrow>
         (case first_return (insensitive_hit r) possibleKeys of
            Some v \<Rightarrow> v
          | None \<Rightarrow>
             (case first_return (partial_hit r) possibleKeys of
                Some v \<Rightarrow> v
              | None \<Rightarrow> JUndefined)))"

text \<open>
  The resolution policy, stated on the record's entries. There are three tiers of key
  match; the pairs of a tier and a candidate are taken tier by tier, the candidates of a
  tier in their order.
\<close>

datatype tier = Exact | CaseInsensitive | Substring

definition tier_major :: "string list \<Rightarrow> (tier \<times> string) list" where
  "tier_major candidates =
     concat (map (\<lambda>t. map (\<lambda>k. (t, k)) candidates) [Exact, CaseInsensitive, Substring])"

text \<open>
  The specification's reading: a key matches a candidate when it is equal to it, equal
  to it but for letter case, or contains it but for letter case; the answer is the first
  non-empty value among the values of the matching keys, taken tier by tier, candidate by
  candidate, key by key.
\<close>

fun key_matches :: "tier \<Rightarrow> string \<Rightarrow> string \<Rightarrow> bool" where
  "key_matches Exact candidate k = (k = candidate)"
| "key_matches CaseInsensitive candidate k = (toLowerCase k = toLowerCase candidate)"
| "key_matches Substring candidate k = str_includes (toLowerCase k) (toLowerCase candidate)"

definition matching_values :: "row \<Rightarrow> tier \<times> string \<Rightarrow> jsval list" where
  "matching_values r tc = map snd (filter (\<lambda>kv. key_matches (fst tc) (snd tc) (fst kv)) r)"

definition first_non_empty :: "row \<Rightarrow> string list \<Rightarrow> jsval" where
  "first_non_empty r candidates =
     (case filter non_empty (concat (map (matching_values r) (tier_major candidates))) of
        [] \<Rightarrow> JUndefined
      | v # _ \<Rightarrow> v)"

text \<open>
  The reading that the source bears out: in the second and third tier a candidate is
  looked up under one key only, the first entry of the record whose key matches (in the
  second tier with the white space around key and candidate taken off); it hits when
  that key is not the empty string and its value is non-empty. The answer is the first
  hit, tier by tier, candidate by candidate.
\<close>

definition first_entry_value :: "row \<Rightarrow> (string \<Rightarrow> bool) \<Rightarrow> jsval option" where
  "first_entry_value r matches =
     (case filter (\<lambda>kv. matches (fst kv)) r of
        [] \<Rightarrow> None
      | kv # _ \<Rightarrow> if fst kv \<noteq> [] \<and> non_empty (snd kv) then Some (snd kv) else None)"

fun tier_value :: "row \<Rightarrow> tier \<Rightarrow> string \<Rightarrow> jsval option" where
  "tier_value r Exact candidate =
     (case filter (\<lambda>kv. fst kv = candidate) r of
        [] \<Rightarrow> None
      | kv # _ \<Rightarrow> if non_empty (snd kv) then Some (snd kv) else None)"
| "tier_value r CaseInsensitive candidate =
     first_entry_value r (\<lambda>k. toLowerCase (trim k) = toLowerCase (trim candidate))"
| "tier_value r Substring candidate =
     first_entry_value r (\<lambda>k. str_includes (toLowerCase k) (toLowerCase candidate))"

definition resolve :: "row \<Rightarrow> string list \<Rightarrow> jsval" where
  "resolve r candidates =
     (case List.map_filter (\<lambda>(t, k). tier_value r t k) (tier_major candidates) of
        [] \<Rightarrow> JUndefined
      | v # _ \<Rightarrow> v)"

section \<open>The value and date normalizers (components/FileUpload.tsx)\<close>

text \<open>
  \<open>parseFloat\<close>: leading white space, an optional sign, then \<open>Infinity\<close> or the longest
  prefix that is a decimal literal (digits, an optional fraction, an optional exponent);
  \<open>NaN\<close> when there is none. The literal's value is rounded to the nearest double.
\<close>

definition exponent_part :: "string \<Rightarrow> int" where
  "exponent_part r =
     (if r \<noteq> [] \<and> (hd r = CHR ''e'' \<or> hd r = CHR ''E'') then
        (let r1 = tl r;
             neg = (r1 \<noteq> [] \<and> hd r1 = CHR ''-'');
             r2 = (if r1 \<noteq> [] \<and> (hd r1 = CHR ''-'' \<or> hd r1 = CHR ''+'') then tl r1 else r1);
             ds = takeWhile is_digit r2
         in if ds = [] then 0
            else if neg then - int (digits_val ds) else int (digits_val ds))
      else 0)"

definition scale10 :: "rat \<Rightarrow> int \<Rightarrow> rat" where
  "scale10 m e = (if 0 \<le> e then m * 10 ^ nat e else m / 10 ^ nat (- e))"

definition parseFloat :: "string \<Rightarrow> jsnum" where
  "parseFloat s =
     (let s1 = dropWhile is_space s;
          neg = (s1 \<noteq> [] \<and> hd s1 = CHR ''-'');
          s2 = (if s1 \<noteq> [] \<and> (hd s1 = CHR ''-'' \<or> hd s1 = CHR ''+'') then tl s1 else s1)
      in if starts_with s2 ''Infinity'' then (if neg then NInf else PInf)
         else
           (let ip = takeWhile is_digit s2;
                r1 = dropWhile is_digit s2;
                dot = (r1 \<noteq> [] \<and> hd r1 = CHR ''.'');
                fp = (if dot then takeWhile is_digit (tl r1) else []);
                r2 = (if dot then dropWhile is_digit (tl r1) else r1)
            in if ip = [] \<and> fp = [] then NaN
               else
                 (let m = scale10 (of_nat (digits_val (ip @ fp)) / 10 ^ length fp)
                            (exponent_part r2)
                  in round_double (if neg then - m else m))))"

text \<open>\<open>Math.round\<close>, and the time value of \<open>new Date(n)\<close> for a number \<open>n\<close>.\<close>

fun Math_round :: "jsnum \<Rightarrow> jsnum" where
  "Math_round (Fin r) = Fin (of_int \<lfloor>r + 1 / 2\<rfloor>)"
| "Math_round n = n"

fun Date_of_number :: "jsnum \<Rightarrow> int option" where
  "Date_of_number (Fin r) =
     (if \<bar>r\<bar> \<le> 8640000000000000 then Some (if 0 \<le> r then \<lfloor>r\<rfloor> else \<lceil>r\<rceil>) else None)"
| "Date_of_number n = None"

text \<open>
  The pattern \<open>/^(\d{1,2})[\/\-](\d{1,2})[\/\-](\d{4})/\<close>. A group of one or two digits
  that a separator must follow is the whole run of digits at that place, so the match is
  read off the runs; the year is the next four characters, whatever follows them.
\<close>

definition is_sep :: "char \<Rightarrow> bool" where
  "is_sep c = (c = CHR ''/'' \<or> c = CHR ''-'')"

definition match_dmy :: "string \<Rightarrow> (string \<times> string \<times> string) option" where
  "match_dmy str =
     (let d = takeWhile is_digit str; r1 = dropWhile is_digit str
      in if (length d = 1 \<or> length d = 2) \<and> r1 \<noteq> [] \<and> is_sep (hd r1) then
           (let m = takeWhile is_digit (tl r1); r2 = dropWhile is_digit (tl r1)
            in if (length m = 1 \<or> length m = 2) \<and> r2 \<noteq> [] \<and> is_sep (hd r2)
                  \<and> length (take 4 (tl r2)) = 4 \<and> list_all is_digit (take 4 (tl r2))
               then Some (d, m, take 4 (tl r2)) else None)
         else None)"

definition serial_date :: "js_env \<Rightarrow> jsval \<Rightarrow> string option" where
  "serial_date env val =
     (case val of
        JNum n \<Rightarrow>
          (case Date_of_number (Math_round ((n - Fin 25569) * Fin 86400 * Fin 1000)) of
             Some t \<Rightarrow> Some (iso_date_of_ms env t)
           | None \<Rightarrow> None)
      | _ \<Rightarrow> None)"

definition parseDate :: "js_env \<Rightarrow> jsval \<Rightarrow> string" where
  "parseDate env val =
     (if \<not> truthy val then today env
      else case serial_date env val of
             Some isoDate \<Rightarrow> isoDate
           | None \<Rightarrow>
              (let str = trim (js_String env val)
               in case match_dmy str of
                    Some (day, month, year) \<Rightarrow>
                      year @ ''-'' @ padStart2 month @ ''-'' @ padStart2 day
                  | None \<Rightarrow>
                     (case Date_getTime env str of
                        Some t \<Rightarrow> iso_date_of_ms env t
                      | None \<Rightarrow> today env)))"

definition is_newline :: "char \<Rightarrow> bool" where
  "is_newline c = (c = CHR 0x0D \<or> c = CHR 0x0A)"

definition cleanCustomerName :: "js_env \<Rightarrow> jsval \<Rightarrow> string" where
  "cleanCustomerName env name =
     (if \<not> truthy name then ''Unknown''
      else trim (collapse_runs is_space (collapse_runs is_newline (js_String env name))))"

text \<open>
  A calendar date in the canonical form \<open>YYYY-MM-DD\<close>: four digits, a month of 01..12 and
  a day that the month has in that year.
\<close>

definition valid_calendar_date :: "string \<Rightarrow> bool" where
  "valid_calendar_date s = (iso_date_only s \<noteq> None)"

section \<open>The header locator and the transaction builder (components/FileUpload.tsx)\<close>

text \<open>Decimal text of an integer, as a template literal prints an index or a time stamp.\<close>

fun show_nat :: "nat \<Rightarrow> string" where
  "show_nat n =
     (if n < 10 then [''0123456789'' ! n]
      else show_nat (n div 10) @ [''0123456789'' ! (n mod 10)])"

declare show_nat.simps [simp del]

definition show_int :: "int \<Rightarrow> string" where
  "show_int i = (if i < 0 then ''-'' @ show_nat (nat (- i)) else show_nat (nat i))"

text \<open>
  The worksheet is read through the spreadsheet library, which is not part of the
  repository. The model takes the two views of the sheet that \<open>processFile\<close> asks the
  library for: the rows as arrays of cells (\<open>sheet_to_json\<close> with \<open>header: 1\<close>), and the
  keyed records below a given header row (\<open>sheet_to_json\<close> with \<open>range\<close> and an empty
  string as default value).
\<close>

record Sheet =
  sheet_rows :: "jsval list list"
  sheet_records :: "nat \<Rightarrow> row list"

datatype ingest_error = FileAppearsEmpty | HeaderNotFound | EmptyData | NoValidTransactions

fun error_message :: "ingest_error \<Rightarrow> string" where
  "error_message FileAppearsEmpty = ''File appears empty''"
| "error_message HeaderNotFound =
     ''Could not find a 'Customer' column. Please check file headers.''"
| "error_message EmptyData = ''No data found below the header row.''"
| "error_message NoValidTransactions = ''Parsed headers but found no valid transactions.''"

definition customerKeywords :: "string list" where
  "customerKeywords =
     [''customer'', ''client'', ''party name'', ''bill to'', ''account name'', ''payer'']"

definition is_header_cell :: "js_env \<Rightarrow> jsval \<Rightarrow> bool" where
  "is_header_cell env cell =
     (truthy cell
      \<and> list_ex (\<lambda>k. str_includes (toLowerCase (js_String env cell)) k) customerKeywords)"

definition is_header_row :: "js_env \<Rightarrow> jsval list \<Rightarrow> bool" where
  "is_header_row env cells = list_ex (is_header_cell env) cells"

text \<open>\<open>for (let i = 0; i < Math.min(rawRows.length, 50); i++) { ... break; }\<close>\<close>

function scan_rows :: "js_env \<Rightarrow> jsval list list \<Rightarrow> nat \<Rightarrow> nat option" where
  "scan_rows env rawRows i =
     (if i < min (length rawRows) 50
      then (if is_header_row env (rawRows ! i) then Some i else scan_rows env rawRows (Suc i))
      else None)"
  by pat_completeness auto
termination
  by (relation "measure (\<lambda>(env, rawRows, i). min (length rawRows) 50 - i)") auto

declare scan_rows.simps [simp del]

definition locateHeader :: "js_env \<Rightarrow> jsval list list \<Rightarrow> ingest_error + nat" where
  "locateHeader env rawRows =
     (case scan_rows env rawRows 0 of
        None \<Rightarrow> Inl HeaderNotFound
      | Some headerRowIndex \<Rightarrow> Inr headerRowIndex)"

definition customerNameKeys :: "string list" where
  "customerNameKeys =
     [''Customer Name'', ''Customer'', ''Client'', ''Account Name'', ''Party Name'',
      ''Bill To'', ''Payer'', ''Account Description'', ''Cust Name'', ''Customer #'',
      ''English Name'', ''Arabic Name'']"

definition amountKeys :: "string list" where
  "amountKeys =
     [''Total'', ''Original'', ''Amount'', ''Value'', ''Debit'', ''Credit'', ''Balance'', ''Net'']"

definition typeKeys :: "string list" where
  "typeKeys =
     [''Trx Type'', ''Type'', ''Transaction Type'', ''Doc Type'', ''Category'', ''Description'']"

definition dateKeys :: "string list" where
  "dateKeys = [''Trx Date'', ''Date'', ''Transaction Date'', ''Invoice Date'', ''Gl Date'']"

definition numberKeys :: "string list" where
  "numberKeys =
     [''Number'', ''Invoice No'', ''Ref'', ''Reference'', ''Doc Num'', ''Transaction Number'',
      ''Document Number'']"

definition regionKeys :: "string list" where
  "regionKeys = [''Region'', ''Area'', ''Territory'', ''Zone'']"

definition siteKeys :: "string list" where
  "siteKeys = [''Site Location'', ''Location'', ''Site'', ''Branch'', ''Store'']"

definition agencyKeys :: "string list" where
  "agencyKeys = [''Gl Agency'', ''Agency'', ''GL'', ''Account'']"

definition noteKeys :: "string list" where
  "noteKeys = [''Note'', ''Description'', ''Memo'', ''Remarks'', ''Details'', ''Narration'']"

text \<open>
  The amount of a row, from the raw cell and the type text: the parsed number (\<open>0\<close> when
  it is not one), negated for a payment when positive, and replaced by the negated
  number inside the parentheses when the raw cell is a string with both parentheses.
\<close>

definition has_parens :: "jsval \<Rightarrow> bool" where
  "has_parens rawVal =
     (case rawVal of JStr s \<Rightarrow> CHR ''('' \<in> set s \<and> CHR '')'' \<in> set s | _ \<Rightarrow> False)"

definition strip_parens :: "jsval \<Rightarrow> string" where
  "strip_parens rawVal =
     (case rawVal of JStr s \<Rightarrow> filter (\<lambda>c. c \<notin> set ''(),'') s | _ \<Rightarrow> [])"

definition is_payment_text :: "string \<Rightarrow> bool" where
  "is_payment_text typeString = str_includes (toLowerCase typeString) ''payment''"

definition rowAmount :: "js_env \<Rightarrow> jsval \<Rightarrow> string \<Rightarrow> jsnum" where
  "rowAmount env rawVal typeString =
     (let rawAmount = filter (\<lambda>c. c \<noteq> CHR '','') (js_String env (js_or rawVal (JStr ''0'')));
          parsed = parseFloat rawAmount;
          amount = (if isNaN parsed then Fin 0 else parsed);
          signed = (if is_payment_text typeString \<and> js_gt0 amount then - amount else amount)
      in if has_parens rawVal then Fin (- 1) * parseFloat (strip_parens rawVal) else signed)"

text \<open>The body of \<open>jsonData.forEach\<close>: the transaction a row yields, if it yields one.\<close>

definition buildTransaction :: "js_env \<Rightarrow> nat \<Rightarrow> row \<Rightarrow> Transaction option" where
  "buildTransaction env index r =
     (let custNameRaw = findValue r customerNameKeys
      in if \<not> truthy custNameRaw \<or> trim (js_String env custNameRaw) = [] then None
         else
           (let name = cleanCustomerName env custNameRaw
            in if str_includes (toLowerCase name) ''total'' then None
               else
                 (let rawVal = findValue r amountKeys;
                      typeString = js_String env (js_or (findValue r typeKeys) (JStr ''INV''));
                      amount = rowAmount env rawVal typeString;
                      isoDate = parseDate env (findValue r dateKeys)
                  in Some
                       \<lparr> trxId = ''file-'' @ show_nat index @ ''-'' @ show_int (now_ms env),
                         trxDate = isoDate,
                         number = js_String env (js_or (findValue r numberKeys) (JStr [])),
                         region = js_or (findValue r regionKeys) (JStr []),
                         siteLocation = js_or (findValue r siteKeys) (JStr []),
                         trxType = (if is_payment_text typeString then Payment else INV),
                         originalAmount = amount,
                         customerName = name,
                         glAgency = js_or (findValue r agencyKeys) (JStr []),
                         trxNote = js_or (findValue r noteKeys) (JStr []) \<rparr>)))"

definition buildTransactions :: "js_env \<Rightarrow> row list \<Rightarrow> Transaction list" where
  "buildTransactions env jsonData =
     List.map_filter (\<lambda>(index, r). buildTransaction env index r) (enumerate 0 jsonData)"

text \<open>
  \<open>processFile\<close> from the point where the workbook has been read: \<open>Inr\<close> is the list
  handed to \<open>onDataLoaded\<close>, \<open>Inl\<close> the error shown instead (nothing is handed on then).
\<close>

definition processFile :: "js_env \<Rightarrow> Sheet \<Rightarrow> ingest_error + Transaction list" where
  "processFile env sheet =
     (let rawRows = sheet_rows sheet
      in if rawRows = [] then Inl FileAppearsEmpty
         else case locateHeader env rawRows of
                Inl e \<Rightarrow> Inl e
              | Inr headerRowIndex \<Rightarrow>
                 (let jsonData = sheet_records sheet headerRowIndex
                  in if jsonData = [] then Inl EmptyData
                     else
                       (let transactions = buildTransactions env jsonData
                        in if transactions = [] then Inl NoValidTransactions
                           else Inr transactions)))"

section \<open>The manual-entry form (components/ManualEntryForm.tsx)\<close>

text \<open>The form's state: every field is the text of its input element.\<close>

record FormData =
  fd_trxDate :: string
  fd_number :: string
  fd_region :: string
  fd_siteLocation :: string
  fd_originalAmount :: string

text \<open>
  \<open>handleSubmit\<close>: the transaction passed to \<open>onAddTransaction\<close>, or \<open>None\<close> when no
  customer is selected (the handler alerts and returns).
\<close>

definition handleSubmit :: "js_env \<Rightarrow> string \<Rightarrow> FormData \<Rightarrow> Transaction option" where
  "handleSubmit env selectedCustomer formData =
     (if selectedCustomer = [] then None
      else
        (let amount = string_to_number env (fd_originalAmount formData);
             finalAmount = - \<bar>amount\<bar>
         in Some
              \<lparr> trxId = ''manual-'' @ show_int (now_ms env),
                trxDate = (if fd_trxDate formData = [] then today env else fd_trxDate formData),
                number = fd_number formData,
                region = JStr (fd_region formData),
                siteLocation = JStr (fd_siteLocation formData),
                trxType = PAYMENT,
                originalAmount = finalAmount,
                customerName = selectedCustomer,
                glAgency = JUndefined,
                trxNote = JUndefined \<rparr>))"

section \<open>Sample inputs\<close>

text \<open>
  A platform and a form state for the closed instances of the theorems below. The
  printing functions are stand-ins (no theorem depends on what they print), and
  \<open>Number\<close> is taken to read plain decimal text as \<open>parseFloat\<close> does.
\<close>

definition sample_env :: js_env where
  "sample_env =
     \<lparr> now_ms = 1700000000000,
       other_date_parse = (\<lambda>s. None),
       iso_date_of_ms = (\<lambda>t. show_int (t div 86400000)),
       number_to_string = (\<lambda>n. case n of Fin q \<Rightarrow> show_int \<lfloor>q\<rfloor> | _ \<Rightarrow> ''NaN''),
       string_to_number = parseFloat,
       intl_number_format = (\<lambda>n. case n of Fin q \<Rightarrow> show_int \<lfloor>q\<rfloor> | _ \<Rightarrow> ''NaN''),
       intl_date_format = (\<lambda>t. show_int (t div 86400000)) \<rparr>"

definition sample_form :: FormData where
  "sample_form =
     \<lparr> fd_trxDate = ''2024-01-10'', fd_number = ''1001'', fd_region = ''Center'',
       fd_siteLocation = ''Riyadh'', fd_originalAmount = ''200'' \<rparr>"

definition sample_row :: row where
  "sample_row =
     [(''Trx Date'', JStr ''05/01/2024''), (''Customer Name'', JStr ''ACME Trading''),
      (''Trx Type'', JStr ''Payment''), (''Net Amount'', JStr ''90''),
      (''Total'', JStr ''(1,250.50)'')]"

definition credit_row :: row where
  "credit_row =
     [(''Trx Date'', JStr ''05/01/2024''), (''Customer Name'', JStr ''ACME Trading''),
      (''Trx Type'', JStr ''INV''), (''Total'', JStr ''(-5)'')]"

definition total_row :: row where
  "total_row =
     [(''Trx Date'', JStr []), (''Customer Name'', JStr ''Total''),
      (''Trx Type'', JStr []), (''Net Amount'', JStr ''90''), (''Total'', JStr ''1,340.50'')]"

definition blank_row :: row where
  "blank_row =
     [(''Trx Date'', JStr ''06/01/2024''), (''Customer Name'', JStr ''  ''),
      (''Trx Type'', JStr ''INV''), (''Net Amount'', JStr ''90''), (''Total'', JStr ''90'')]"


definition sample_grid :: "jsval list list" where
  "sample_grid =
     replicate 12 [JStr ''Statement of account export'']
     @ [[JStr ''Trx Date'', JStr ''Customer Name'', JStr ''Trx Type'', JStr ''Net Amount'',
         JStr ''Total''],
        [JStr ''05/01/2024'', JStr ''ACME Trading'', JStr ''Payment'', JStr ''90'',
         JStr ''(1,250.50)''],
        [JStr ''06/01/2024'', JStr ''  '', JStr ''INV'', JStr ''90'', JStr ''90''],
        [JUndefined, JStr ''Total'', JUndefined, JStr ''90'', JStr ''1,340.50'']]"

definition sample_sheet :: Sheet where
  "sample_sheet =
     \<lparr> sheet_rows = sample_grid,
       sheet_records = (\<lambda>i. if i = 12 then [sample_row, blank_row, total_row] else []) \<rparr>"

definition amount_row :: row where
  "amount_row = [(''Net Amount'', JStr ''90''), (''Total'', JStr ''100'')]"

definition shadowed_row :: row where
  "shadowed_row = [(''total'', JStr []), (''TOTAL'', JStr ''5'')]"

definition empty_total_row :: row where
  "empty_total_row = [(''Net Amount'', JStr ''90''), (''Total'', JStr [])]"

definition spaced_row :: row where
  "spaced_row = [(''NET AMOUNT'', JStr ''90''), ('' total '', JStr ''100'')]"

definition untitled_grid :: "jsval list list" where
  "untitled_grid =
     replicate 50 [JStr ''Statement of account export''] @ [[JStr ''Trx Date'', JStr ''Customer'']]"

definition sample_invoice :: Transaction where
  "sample_invoice =
     \<lparr> trxId = ''file-0-1700000000000'', trxDate = ''2024-01-05'', number = ''INV-1'',
       region = JStr ''East'', siteLocation = JStr ''Dammam'', trxType = INV,
       originalAmount = Fin 500, customerName = ''ACME Trading'',
       glAgency = JStr [], trxNote = JStr [] \<rparr>"

definition sample_payment :: Transaction where
  "sample_payment =
     \<lparr> trxId = ''manual-1700000000000'', trxDate = ''2024-01-10'', number = ''1001'',
       region = JStr ''Center'', siteLocation = JStr ''Riyadh'', trxType = PAYMENT,
       originalAmount = Fin (- 200), customerName = ''ACME Trading'',
       glAgency = JUndefined, trxNote = JUndefined \<rparr>"

definition sample_config :: StatementConfig where
  "sample_config =
     \<lparr> operatingUnit = ''Riyadh'', startDate = ''2024-01-01'', endDate = ''2024-01-31'',
       openingBalance = Fin 1000, logoUrl = None \<rparr>"

text \<open>The time value of an entry's date, where the date can be read.\<close>

definition entry_time :: "js_env \<Rightarrow> LedgerEntry \<Rightarrow> int" where
  "entry_time env e = the (Date_getTime env (trxDate e))"

definition readable_date :: "js_env \<Rightarrow> LedgerEntry \<Rightarrow> bool" where
  "readable_date env e = (Date_getTime env (trxDate e) \<noteq> None)"








section \<open>Rounding to a double\<close>

lemma binade_bounds: "0 < q \<Longrightarrow> 2 powi binade q \<le> q \<and> q < 2 powi (binade q + 1)"
proof (induction q rule: binade.induct)
  case (1 q)
  show ?case
  proof (cases "2 \<le> q")
    case True
    then have b: "binade q = binade (q / 2) + 1" using 1(3) by (subst binade.simps) simp
    have ih: "2 powi binade (q / 2) \<le> q / 2 \<and> q / 2 < 2 powi (binade (q / 2) + 1)"
      using 1(1) 1(3) True by simp
    show ?thesis unfolding b using ih by (simp add: power_int_add)
  next
    case False
    show ?thesis
    proof (cases "q < 1")
      case True
      then have b: "binade q = binade (q * 2) - 1" using 1(3) False by (subst binade.simps) simp
      have ih: "2 powi binade (q * 2) \<le> q * 2 \<and> q * 2 < 2 powi (binade (q * 2) + 1)"
        using 1(2) 1(3) False True by simp
      show ?thesis unfolding b using ih by (simp add: power_int_add power_int_diff)
    next
      case nlt: False
      then have b: "binade q = 0" using 1(3) False by (subst binade.simps) simp
      show ?thesis unfolding b using False nlt by simp
    qed
  qed
qed

lemma powi_less_imp: "(2::rat) powi a < 2 powi b \<Longrightarrow> a < b"
proof (rule ccontr)
  assume l: "(2::rat) powi a < 2 powi b" and "\<not> a < b"
  then have "b \<le> a" by simp
  then have "(2::rat) powi b \<le> 2 powi a" by (rule power_int_increasing) simp
  then show False using l by simp
qed

lemma binade_unique:
  assumes "2 powi e \<le> q" "q < 2 powi (e + 1)"
  shows "binade q = e"
proof -
  have "(0::rat) < 2 powi e" by simp
  then have q: "0 < q" using assms(1) by (rule less_le_trans)
  note b = binade_bounds [OF q]
  have "(2::rat) powi e < 2 powi (binade q + 1)" using assms b by simp
  then have 1: "e < binade q + 1" by (rule powi_less_imp)
  have "(2::rat) powi binade q < 2 powi (e + 1)" using assms b by simp
  then have 2: "binade q < e + 1" by (rule powi_less_imp)
  show ?thesis using 1 2 by simp
qed

lemma rhe_int: "round_half_even (of_int n) = n"
  by (simp add: round_half_even_def)

lemma rhe_le: "x \<le> of_int M \<Longrightarrow> round_half_even x \<le> M"
proof -
  assume x: "x \<le> of_int M"
  show ?thesis
  proof (cases "x = of_int M")
    case True then show ?thesis by (simp add: rhe_int)
  next
    case False
    then have "x < of_int M" using x by simp
    then have "\<lfloor>x\<rfloor> < M" by (simp add: floor_less_iff)
    then show ?thesis by (simp add: round_half_even_def Let_def)
  qed
qed

lemma rhe_nonneg: "0 \<le> x \<Longrightarrow> 0 \<le> round_half_even x"
  by (simp add: round_half_even_def Let_def)

lemma round_double_minus: "round_double (- q) = - round_double q"
  by (cases "0 < q"; cases "q = 0") (auto simp: round_double_def Let_def)


lemma round_double_pos:
  assumes "2 powi e \<le> q" "q < 2 powi (e + 1)" "- 1022 \<le> e" "e < 1023"
  shows "round_double q = Fin (of_int (round_half_even (q / 2 powi (e - 52))) * 2 powi (e - 52))"
proof -
  have "(0::rat) < 2 powi e" by simp
  then have q: "0 < q" using assms(1) by (rule less_le_trans)
  have b: "binade q = e" using assms(1,2) by (rule binade_unique)
  define u :: rat where "u = 2 powi (e - 52)"
  have u: "0 < u" unfolding u_def by simp
  have "q / u < 2 powi (e + 1) / u" using assms(2) u by (simp add: divide_strict_right_mono)
  also have "2 powi (e + 1) / u = 2 powi 53" unfolding u_def by (simp flip: power_int_diff)
  finally have "q / u \<le> of_int (2 ^ 53)" by simp
  then have "round_half_even (q / u) \<le> 2 ^ 53" by (rule rhe_le)
  then have "(of_int (round_half_even (q / u)) :: rat) \<le> of_int (2 ^ 53)" by (simp only: of_int_le_iff)
  then have "of_int (round_half_even (q / u)) * u \<le> of_int (2 ^ 53) * u" using u by (simp only: mult_le_cancel_right_pos)
  also have "of_int (2 ^ 53) * u = 2 powi (e + 1)" unfolding u_def by (simp add: power_int_add power_int_diff)
  also have "\<dots> \<le> 2 powi 1023" using assms(4) by (intro power_int_increasing) simp_all
  also have "\<dots> < (2::rat) powi 1024" by (intro power_int_strict_increasing) simp_all
  finally have r: "\<not> 2 powi 1024 \<le> of_int (round_half_even (q / u)) * u" by simp
  have m: "max e (- 1022) = e" using assms(3) by simp
  show ?thesis
    unfolding round_double_def Let_def using q r b m by (simp add: u_def)
qed

lemma round_double_dyadic:
  assumes "\<bar>n\<bar> < 2 ^ 53" "- 1074 \<le> k" "\<bar>of_int n * 2 powi k\<bar> < (2::rat) powi 1024"
  shows "round_double (of_int n * 2 powi k) = Fin (of_int n * 2 powi k)"
proof (cases "n = 0")
  case True then show ?thesis by (simp add: round_double_def)
next
  case False
  define q :: rat where "q = of_int n * 2 powi k"
  define a where "a = \<bar>q\<bar>"
  have a_eq: "a = of_int \<bar>n\<bar> * 2 powi k" unfolding a_def q_def by (simp add: abs_mult)
  have a: "0 < a" unfolding a_eq using False by simp
  have q0: "q \<noteq> 0" using a unfolding a_def by simp
  define e where "e = max (binade a) (- 1022)"
  have "(of_int \<bar>n\<bar> :: rat) < of_int (2 ^ 53)" using assms(1) by (simp only: of_int_less_iff)
  then have "a < of_int (2 ^ 53) * 2 powi k" unfolding a_eq by (simp only: mult_less_cancel_right_pos zero_less_power_int zero_less_numeral)
  also have "of_int (2 ^ 53) * 2 powi k = (2::rat) powi (53 + k)" by (simp add: power_int_add)
  finally have "2 powi binade a < (2::rat) powi (53 + k)" using binade_bounds [OF a] by simp
  then have "binade a < 53 + k" by (rule powi_less_imp)
  then have ek: "e - 52 \<le> k" unfolding e_def using assms(2) by simp
  define j where "j = nat (k - (e - 52))"
  have kj: "k = (e - 52) + int j" unfolding j_def using ek by simp
  have "a / 2 powi (e - 52) = of_int \<bar>n\<bar> * 2 powi (k - (e - 52))"
    unfolding a_eq by (simp add: power_int_diff)
  also have "\<dots> = of_int (\<bar>n\<bar> * 2 ^ j)" unfolding kj by simp
  finally have "round_half_even (a / 2 powi (e - 52)) = \<bar>n\<bar> * 2 ^ j" by (simp only: rhe_int)
  then have "of_int (round_half_even (a / 2 powi (e - 52))) * 2 powi (e - 52)
               = (of_int \<bar>n\<bar> :: rat) * (2 ^ j * 2 powi (e - 52))" by simp
  also have "2 ^ j * (2::rat) powi (e - 52) = 2 powi k" unfolding kj by (simp add: power_int_add)
  finally have r: "of_int (round_half_even (a / 2 powi (e - 52))) * 2 powi (e - 52) = a"
    unfolding a_eq .
  have big: "\<not> 2 powi 1024 \<le> a" using assms(3) unfolding a_def q_def by simp
  have "round_double q = Fin (if 0 < q then a else - a)"
    unfolding round_double_def Let_def using q0 r big
    by (simp only: a_def [symmetric] e_def [symmetric] if_False)
  also have "(if 0 < q then a else - a) = q" unfolding a_def by simp
  finally show ?thesis unfolding q_def .
qed

lemma round_double_int: "\<bar>n\<bar> < 2 ^ 53 \<Longrightarrow> round_double (of_int n) = Fin (of_int n)"
proof -
  assume n: "\<bar>n\<bar> < 2 ^ 53"
  then have "(of_int \<bar>n\<bar> :: rat) < of_int (2 ^ 53)" by (simp only: of_int_less_iff)
  also have "\<dots> < (2::rat) powi 1024" by simp
  finally have "\<bar>of_int n * 2 powi 0\<bar> < (2::rat) powi 1024" by simp
  from round_double_dyadic [OF n _ this] show ?thesis by simp
qed

lemma round_double_idem:
  assumes "round_double q = Fin m"
  shows "round_double m = Fin m"
proof (cases "q = 0")
  case True then show ?thesis using assms by (auto simp: round_double_def)
next
  case False
  define a where "a = \<bar>q\<bar>"
  have a: "0 < a" unfolding a_def using False by simp
  define e where "e = max (binade a) (- 1022)"
  define u :: rat where "u = 2 powi (e - 52)"
  define N where "N = round_half_even (a / u)"
  have u: "0 < u" unfolding u_def by simp
  have unf: "round_double q = (if 2 powi 1024 \<le> of_int N * u then (if 0 < q then PInf else NInf)
                                else Fin (if 0 < q then of_int N * u else - (of_int N * u)))"
    unfolding round_double_def Let_def using False
    by (simp only: a_def [symmetric] e_def [symmetric] u_def [symmetric] N_def [symmetric] if_False)
  have small: "of_int N * u < 2 powi 1024" using assms unfolding unf by (auto split: if_splits)
  have m: "m = (if 0 < q then of_int N * u else - (of_int N * u))"
    using assms unfolding unf by (auto split: if_splits)
  have "binade a \<le> e" unfolding e_def by simp
  then have "binade a + 1 \<le> e + 1" by simp
  then have "(2::rat) powi (binade a + 1) \<le> 2 powi (e + 1)" by (rule power_int_increasing) simp
  then have "a < 2 powi (e + 1)" using binade_bounds [OF a] by simp
  then have "a / u < 2 powi (e + 1) / u" using u by (simp add: divide_strict_right_mono)
  also have "2 powi (e + 1) / u = 2 powi 53" unfolding u_def by (simp flip: power_int_diff)
  finally have "a / u \<le> of_int (2 ^ 53)" by simp
  then have N53: "N \<le> 2 ^ 53" unfolding N_def by (rule rhe_le)
  have "0 \<le> a / u" using a u by simp
  then have N0: "0 \<le> N" unfolding N_def by (rule rhe_nonneg)
  have e: "- 1074 \<le> e - 52" unfolding e_def by simp
  have pos: "round_double (of_int N * u) = Fin (of_int N * u)"
  proof (cases "N = 2 ^ 53")
    case True
    have eq: "of_int N * u = of_int (2 ^ 52) * 2 powi (e - 51)"
      unfolding True u_def by (simp add: power_int_diff)
    have "\<bar>of_int (2 ^ 52) * 2 powi (e - 51)\<bar> < (2::rat) powi 1024"
      using small unfolding eq by (simp add: abs_mult)
    moreover have "\<bar>2 ^ 52 :: int\<bar> < 2 ^ 53" by simp
    moreover have "- 1074 \<le> e - 51" using e by simp
    ultimately have "round_double (of_int (2 ^ 52) * 2 powi (e - 51)) = Fin (of_int (2 ^ 52) * 2 powi (e - 51))"
      by (intro round_double_dyadic)
    then show ?thesis unfolding eq .
  next
    case False
    then have "\<bar>N\<bar> < 2 ^ 53" using N53 N0 by simp
    moreover have "\<bar>of_int N * 2 powi (e - 52)\<bar> < (2::rat) powi 1024"
      using small N0 unfolding u_def by (simp add: abs_mult)
    ultimately show ?thesis unfolding u_def using e by (intro round_double_dyadic)
  qed
  show ?thesis
  proof (cases "0 < q")
    case True then show ?thesis using pos m by simp
  next
    case False
    then have "m = - (of_int N * u)" using m by simp
    then show ?thesis using pos round_double_minus [of "of_int N * u"] by simp
  qed
qed

lemma neg_one_times: "round_double q = Fin m \<Longrightarrow> Fin (- 1) * Fin m = Fin (- m)"
  using round_double_idem [of q m] round_double_minus [of m] by simp

lemma rhe_near: "\<bar>x - of_int n\<bar> < 1 / 2 \<Longrightarrow> round_half_even x = n"
proof -
  assume h: "\<bar>x - of_int n\<bar> < 1 / 2"
  show ?thesis
  proof (cases "of_int n \<le> x")
    case True
    then have "\<lfloor>x\<rfloor> = n" using h by (simp add: floor_eq_iff)
    then show ?thesis using h True by (simp add: round_half_even_def Let_def)
  next
    case False
    then have "\<lfloor>x\<rfloor> = n - 1" using h by (simp add: floor_eq_iff)
    then show ?thesis using h False by (simp add: round_half_even_def Let_def)
  qed
qed

lemma round_double_near:
  assumes "2 powi e \<le> q" "q < 2 powi (e + 1)" "- 1022 \<le> e" "e < 1023"
    and "\<bar>q / 2 powi (e - 52) - of_int n\<bar> < 1 / 2"
  shows "round_double q = Fin (of_int n * 2 powi (e - 52))"
  using round_double_pos [OF assms(1-4)] rhe_near [OF assms(5)] by simp

section \<open>The running balance\<close>

lemma tableBody_length: "length (fst (tableBody env b ts)) = length ts"
  by (induction ts arbitrary: b) (simp_all add: split_beta Let_def)

lemma tableBody_final: "snd (tableBody env b ts) = foldl (+) b (map calculatedAmount ts)"
  by (induction ts arbitrary: b) (simp_all add: split_beta Let_def)

lemma tableBody_balances:
  "map col_balance (fst (tableBody env b ts)) =
     map (\<lambda>n. ''SAR '' @ formatCurrency env (foldl (+) b (map calculatedAmount (take (Suc n) ts))))
       [0..<length ts]"
proof (induction ts arbitrary: b)
  case Nil
  show ?case by simp
next
  case (Cons t ts)
  have upt: "[0..<length (t # ts)] = 0 # map Suc [0..<length ts]"
    by (simp add: upt_conv_Cons map_Suc_upt del: upt_Suc)
  show ?case
    unfolding upt
    by (simp add: split_beta Let_def Cons.IH table_row_def del: upt_Suc)
qed

lemma iso_2024_01_05: "iso_date_only ''2024-01-05'' = Some 1704412800000"
  by (simp add: iso_date_only_def is_digit_def digits_val_def digit_val_def days_in_month_def days_from_civil_def Let_def)

lemma iso_2024_01_10: "iso_date_only ''2024-01-10'' = Some 1704844800000"
  by code_simp

lemma getTime_iso: "iso_date_only s = Some t \<Longrightarrow> Date_getTime env s = Some t"
  by (simp add: Date_getTime_def)

text \<open>
  Claim C1. The balance shown in the n-th row of the table is the opening balance plus the
  rendering amounts of rows 1 to n of the merged, date-sorted ledger, added one after the
  other in row order (each \<open>+\<close> is the addition of doubles), and the ``Total Balance Due''
  figure is the balance after the last row. With an opening balance
  of 1000.00, one invoice of 500.00 on 2024-01-05 and one manual payment of 200.00 on
  2024-01-10 (stored as -200.00 by the form), the rows show the balances 1500.00 and
  1300.00 and the final balance is 1300.00. The figures are printed through
  \<open>formatCurrency\<close>, whatever \<open>Intl.NumberFormat\<close> makes of them.
\<close>

theorem running_balance:
  "map col_balance (st_body (generateStatementPDF env fs ms c cfg)) =
     map (\<lambda>n. ''SAR '' @ formatCurrency env
                 (foldl (+) (openingBalance cfg)
                    (map calculatedAmount (take (Suc n) (allTrxs env fs ms c cfg)))))
       [0..<length (allTrxs env fs ms c cfg)]
   \<and> finalBalance (generateStatementPDF env fs ms c cfg) =
       foldl (+) (openingBalance cfg) (map calculatedAmount (allTrxs env fs ms c cfg))
   \<and> st_totalBalanceDue (generateStatementPDF env fs ms c cfg) =
       ''SAR '' @ formatCurrency env (finalBalance (generateStatementPDF env fs ms c cfg))
   \<and> map col_balance
        (st_body (generateStatementPDF env
           [invoice\<lparr>trxDate := ''2024-01-05'', originalAmount := Fin 500, customerName := c\<rparr>]
           [payment\<lparr>trxDate := ''2024-01-10'', originalAmount := Fin (- 200), customerName := c\<rparr>]
           c
           (cfg\<lparr>startDate := ''2024-01-01'', endDate := ''2024-01-31'',
                 openingBalance := Fin 1000\<rparr>))) =
       [''SAR '' @ formatCurrency env (Fin 1500), ''SAR '' @ formatCurrency env (Fin 1300)]
   \<and> finalBalance
        (generateStatementPDF env
           [invoice\<lparr>trxDate := ''2024-01-05'', originalAmount := Fin 500, customerName := c\<rparr>]
           [payment\<lparr>trxDate := ''2024-01-10'', originalAmount := Fin (- 200), customerName := c\<rparr>]
           c
           (cfg\<lparr>startDate := ''2024-01-01'', endDate := ''2024-01-31'',
                 openingBalance := Fin 1000\<rparr>)) = Fin 1300"
proof -
  let ?inv = "invoice\<lparr>trxDate := ''2024-01-05'', originalAmount := Fin 500, customerName := c\<rparr>"
  let ?pay = "payment\<lparr>trxDate := ''2024-01-10'', originalAmount := Fin (- 200), customerName := c\<rparr>"
  let ?cfg = "cfg\<lparr>startDate := ''2024-01-01'', endDate := ''2024-01-31'',
                 openingBalance := Fin 1000\<rparr>"
  have gen: "generateStatementPDF env fs ms c cfg =
     \<lparr> st_customer = c,
       st_period = formatDate env (startDate cfg) @ '' - '' @ formatDate env (endDate cfg),
       st_operatingUnit = operatingUnit cfg,
       st_openingBalance = ''SAR '' @ formatCurrency env (openingBalance cfg),
       st_body = fst (tableBody env (openingBalance cfg) (allTrxs env fs ms c cfg)),
       finalBalance = snd (tableBody env (openingBalance cfg) (allTrxs env fs ms c cfg)),
       st_totalBalanceDue = ''SAR '' @ formatCurrency env
          (snd (tableBody env (openingBalance cfg) (allTrxs env fs ms c cfg))),
       fileName = ''SOA_'' @ c @ ''_'' @ endDate cfg @ ''.pdf'' \<rparr>" for fs ms cfg
    by (simp add: generateStatementPDF_def split_beta)
  have in1: "in_statement c ?cfg ?inv"
    by (simp add: in_statement_def)
  have in2: "in_statement c ?cfg ?pay"
    by (simp add: in_statement_def)
  have cmp: "sort_compare (by_date env) (toInvoice r ?inv) (toPayment ?pay) \<le> 0" for r
    by (simp add: sort_compare_def by_date_def toInvoice_def toPayment_def
        getTime_iso [OF iso_2024_01_05] getTime_iso [OF iso_2024_01_10])
  have all: "allTrxs env [?inv] [?pay] c ?cfg =
      [toInvoice (refTrx [?pay] c) ?inv, toPayment ?pay]"
    using cmp by (simp add: allTrxs_def invoiceTrxs_def paymentTrxs_def in1 in2 js_sort_def)
  have amounts: "map calculatedAmount (allTrxs env [?inv] [?pay] c ?cfg) = [Fin 500, Fin (- 200)]"
    by (simp add: all toInvoice_def toPayment_def)
  have s1: "map col_balance (st_body (generateStatementPDF env fs ms c cfg)) =
     map (\<lambda>n. ''SAR '' @ formatCurrency env
                 (foldl (+) (openingBalance cfg)
                    (map calculatedAmount (take (Suc n) (allTrxs env fs ms c cfg)))))
       [0..<length (allTrxs env fs ms c cfg)]" for fs ms cfg
    by (simp add: gen tableBody_balances del: upt_Suc)
  have s2: "finalBalance (generateStatementPDF env fs ms c cfg) =
       foldl (+) (openingBalance cfg) (map calculatedAmount (allTrxs env fs ms c cfg))" for fs ms cfg
    by (simp add: gen tableBody_final)
  have s3: "st_totalBalanceDue (generateStatementPDF env fs ms c cfg) =
       ''SAR '' @ formatCurrency env (finalBalance (generateStatementPDF env fs ms c cfg))"
    by (simp add: gen)
  have len: "length (allTrxs env [?inv] [?pay] c ?cfg) = 2"
    by (simp add: all)
  have r1: "round_double 1500 = Fin 1500"
    using round_double_int [of 1500] by simp
  have r2: "round_double 1300 = Fin 1300"
    using round_double_int [of 1300] by simp
  have s4: "map col_balance (st_body (generateStatementPDF env [?inv] [?pay] c ?cfg)) =
       [''SAR '' @ formatCurrency env (Fin 1500), ''SAR '' @ formatCurrency env (Fin 1300)]"
    unfolding s1 len by (simp add: all toInvoice_def toPayment_def upt_rec numeral_2_eq_2 r1 r2)
  have s5: "finalBalance (generateStatementPDF env [?inv] [?pay] c ?cfg) = Fin 1300"
    unfolding s2 amounts by (simp add: r1 r2)
  from s1 s2 s3 s4 s5 show ?thesis by blast
qed

section \<open>The manual-entry form stores payments\<close>

lemma not_positive_neg_abs: "\<not> js_gt0 (- \<bar>x :: jsnum\<bar>)"
  by (cases x) simp_all

text \<open>
  Claim C10. Every transaction that the manual-entry form creates has the type
  \<open>PAYMENT\<close> and the stored amount \<open>-|a|\<close>, where \<open>a\<close> is the number read from
  the amount field; so the stored amount is never positive, whatever sign was typed. The
  form creates a transaction whenever a customer is selected.
\<close>

theorem manual_entry_is_payment:
  "(c \<noteq> [] \<longrightarrow> handleSubmit env c fd \<noteq> None)
   \<and> (\<forall>t. handleSubmit env c fd = Some t \<longrightarrow>
          trxType t = PAYMENT
          \<and> customerName t = c
          \<and> originalAmount t = - \<bar>string_to_number env (fd_originalAmount fd)\<bar>
          \<and> \<not> js_gt0 (originalAmount t))"
  by (auto simp: handleSubmit_def Let_def not_positive_neg_abs)

lemma parseFloat_200: "parseFloat ''200'' = Fin 200"
  using round_double_int [of 200]
  by (simp add: parseFloat_def is_space_def is_digit_def digits_val_def digit_val_def
      exponent_part_def scale10_def Let_def)

lemma parseFloat_m200: "parseFloat ''-200'' = Fin (-200)"
  using round_double_int [of "- 200"]
  by (simp add: parseFloat_def is_space_def is_digit_def digits_val_def digit_val_def
      exponent_part_def scale10_def Let_def)

theorem manual_entry_is_payment_witness:
  "handleSubmit sample_env ''ACME'' sample_form \<noteq> None
   \<and> trxType (the (handleSubmit sample_env ''ACME'' sample_form)) = PAYMENT
   \<and> originalAmount (the (handleSubmit sample_env ''ACME'' sample_form)) = Fin (- 200)
   \<and> originalAmount
        (the (handleSubmit sample_env ''ACME'' (sample_form\<lparr>fd_originalAmount := ''-200''\<rparr>)))
       = Fin (- 200)"
proof -
  have e: "string_to_number sample_env = parseFloat"
    by (simp add: sample_env_def)
  have s1: "handleSubmit sample_env ''ACME'' sample_form
              = Some (the (handleSubmit sample_env ''ACME'' sample_form))"
    by (simp add: handleSubmit_def)
  have s2: "handleSubmit sample_env ''ACME'' (sample_form\<lparr>fd_originalAmount := ''-200''\<rparr>)
              = Some (the (handleSubmit sample_env ''ACME''
                             (sample_form\<lparr>fd_originalAmount := ''-200''\<rparr>)))"
    by (simp add: handleSubmit_def)
  from manual_entry_is_payment [of "''ACME''" sample_env sample_form] s1
       manual_entry_is_payment [of "''ACME''" sample_env
          "sample_form\<lparr>fd_originalAmount := ''-200''\<rparr>"] s2
  show ?thesis
    by (simp add: e sample_form_def parseFloat_200 parseFloat_m200)
qed

section \<open>Parenthesised amounts\<close>

lemma buildTransaction_amount:
  "buildTransaction env i r = Some t \<Longrightarrow>
     originalAmount t =
       rowAmount env (findValue r amountKeys)
         (js_String env (js_or (findValue r typeKeys) (JStr ''INV'')))"
  by (auto simp: buildTransaction_def Let_def split: if_splits)

lemma rowAmount_parens:
  "has_parens rawVal \<Longrightarrow>
     rowAmount env rawVal typeString = Fin (- 1) * parseFloat (strip_parens rawVal)"
  by (simp add: rowAmount_def Let_def)

lemma parseFloat_1250_50: "parseFloat ''1250.50'' = Fin (2501 / 2)"
  using round_double_dyadic [of 2501 "- 1"]
  by (simp add: parseFloat_def is_space_def is_digit_def digits_val_def digit_val_def
      exponent_part_def scale10_def Let_def)

lemma parseFloat_m5: "parseFloat ''-5'' = Fin (- 5)"
  using round_double_int [of "- 5"]
  by (simp add: parseFloat_def is_space_def is_digit_def digits_val_def digit_val_def
      exponent_part_def scale10_def Let_def)

lemma parseFloat_0: "parseFloat ''0'' = Fin 0"
  by (simp add: parseFloat_def is_space_def is_digit_def digits_val_def digit_val_def
      exponent_part_def scale10_def Let_def round_double_def)

lemma parseFloat_rounded: "parseFloat s = Fin m \<Longrightarrow> \<exists>q. round_double q = Fin m"
  by (auto simp: parseFloat_def Let_def split: if_splits)

lemma negated_parse: "parseFloat s \<noteq> NaN \<Longrightarrow> Fin (- 1) * parseFloat s = - parseFloat s"
proof (cases "parseFloat s")
  case (Fin m)
  then obtain q where "round_double q = Fin m"
    using parseFloat_rounded by blast
  then show ?thesis
    using Fin by (simp only: neg_one_times uminus_jsnum.simps)
qed simp_all

lemma negative_negation: "js_lt0 (- x) = js_gt0 x"
  by (cases x) simp_all

lemma rowAmount_negated:
  assumes "CHR ''('' \<in> set s" "CHR '')'' \<in> set s"
    and "parseFloat (filter (\<lambda>c. c \<notin> set ''(),'') s) \<noteq> NaN"
  shows "rowAmount env (JStr s) typeString = - parseFloat (filter (\<lambda>c. c \<notin> set ''(),'') s)"
  using assms by (simp add: rowAmount_parens has_parens_def strip_parens_def negated_parse)

text \<open>
  Claim C3, as stated, does not hold: a string cell with both parentheses is not always
  stored as a negative amount. The cell \<open>(-5)\<close> of an invoice row is stored as \<open>+5\<close>, and
  the cell \<open>(0)\<close> as zero.
\<close>

theorem parenthesised_amount_positive:
  "findValue credit_row amountKeys = JStr ''(-5)''
   \<and> CHR ''('' \<in> set ''(-5)'' \<and> CHR '')'' \<in> set ''(-5)''
   \<and> buildTransaction sample_env 0 credit_row \<noteq> None
   \<and> originalAmount (the (buildTransaction sample_env 0 credit_row)) = Fin 5
   \<and> \<not> js_lt0 (originalAmount (the (buildTransaction sample_env 0 credit_row)))
   \<and> rowAmount sample_env (JStr ''(0)'') ''Payment'' = Fin 0
   \<and> \<not> js_lt0 (rowAmount sample_env (JStr ''(0)'') ''Payment'')"
proof -
  have a: "findValue credit_row amountKeys = JStr ''(-5)''"
    by (simp add: findValue_def credit_row_def amountKeys_def exact_hit_def get_prop_def non_empty_def)
  have c: "findValue credit_row customerNameKeys = JStr ''ACME Trading''"
    by (simp add: findValue_def credit_row_def customerNameKeys_def exact_hit_def get_prop_def non_empty_def)
  have b: "buildTransaction sample_env 0 credit_row \<noteq> None"
    by (simp add: buildTransaction_def c Let_def trim_def is_space_def
        cleanCustomerName_def is_newline_def toLowerCase_def lower_char_def)
  then have "buildTransaction sample_env 0 credit_row
               = Some (the (buildTransaction sample_env 0 credit_row))"
    by simp
  then have "originalAmount (the (buildTransaction sample_env 0 credit_row))
               = rowAmount sample_env (JStr ''(-5)'')
                   (js_String sample_env (js_or (findValue credit_row typeKeys) (JStr ''INV'')))"
    unfolding a [symmetric] by (rule buildTransaction_amount)
  also have "\<dots> = - parseFloat ''-5''"
    by (subst rowAmount_negated) (simp_all add: parseFloat_m5)
  finally have o: "originalAmount (the (buildTransaction sample_env 0 credit_row)) = Fin 5"
    by (simp add: parseFloat_m5)
  have z: "rowAmount sample_env (JStr ''(0)'') ''Payment'' = Fin 0"
    by (subst rowAmount_negated) (simp_all add: parseFloat_0)
  show ?thesis
    using a b o z by simp
qed

text \<open>
  Claim C3, amended. For a raw amount cell that is a string with both parentheses, and
  whose text without parentheses and commas reads as a number \<open>x\<close> (\<open>parseFloat\<close> does
  not give \<open>NaN\<close>), the stored amount is \<open>-x\<close>, for every type text: the
  parenthesis rule replaces what the type rule decided, so a type containing ``payment''
  does not negate it a second time. The stored amount is negative exactly when \<open>x\<close> is
  positive. In particular \<open>(1,250.50)\<close> is stored as \<open>-1250.50\<close>.
\<close>

theorem parenthesised_amount_negated:
  "(CHR ''('' \<in> set s \<and> CHR '')'' \<in> set s
      \<and> parseFloat (filter (\<lambda>c. c \<notin> set ''(),'') s) \<noteq> NaN
      \<longrightarrow> rowAmount env (JStr s) typeString = - parseFloat (filter (\<lambda>c. c \<notin> set ''(),'') s)
          \<and> js_lt0 (rowAmount env (JStr s) typeString)
              = js_gt0 (parseFloat (filter (\<lambda>c. c \<notin> set ''(),'') s)))
   \<and> (findValue r amountKeys = JStr s \<and> CHR ''('' \<in> set s \<and> CHR '')'' \<in> set s
      \<and> parseFloat (filter (\<lambda>c. c \<notin> set ''(),'') s) \<noteq> NaN
      \<and> buildTransaction env i r = Some t
      \<longrightarrow> originalAmount t = - parseFloat (filter (\<lambda>c. c \<notin> set ''(),'') s)
          \<and> js_lt0 (originalAmount t) = js_gt0 (parseFloat (filter (\<lambda>c. c \<notin> set ''(),'') s)))
   \<and> rowAmount env (JStr ''(1,250.50)'') typeString = Fin (- (2501 / 2))
   \<and> (findValue r amountKeys = JStr ''(1,250.50)'' \<and> buildTransaction env i r = Some t
      \<longrightarrow> originalAmount t = Fin (- (2501 / 2)))"
proof -
  have a: "rowAmount env (JStr s) ty = - parseFloat (filter (\<lambda>c. c \<notin> set ''(),'') s)"
    if "CHR ''('' \<in> set s" "CHR '')'' \<in> set s"
       "parseFloat (filter (\<lambda>c. c \<notin> set ''(),'') s) \<noteq> NaN" for s ty
    using that by (rule rowAmount_negated)
  have b: "rowAmount env (JStr ''(1,250.50)'') ty = Fin (- (2501 / 2))" for ty
    by (subst a) (simp_all add: parseFloat_1250_50)
  show ?thesis
    using a b by (auto simp: negative_negation dest!: buildTransaction_amount)
qed

lemma sample_row_customer: "findValue sample_row customerNameKeys = JStr ''ACME Trading''"
  by (simp add: findValue_def sample_row_def customerNameKeys_def exact_hit_def get_prop_def non_empty_def)

lemma sample_row_amount: "findValue sample_row amountKeys = JStr ''(1,250.50)''"
  by (simp add: findValue_def sample_row_def amountKeys_def exact_hit_def get_prop_def non_empty_def)

lemma sample_row_type: "findValue sample_row typeKeys = JStr ''Payment''"
  by (simp add: findValue_def sample_row_def typeKeys_def exact_hit_def get_prop_def non_empty_def)

lemma sample_row_builds: "buildTransaction sample_env 0 sample_row \<noteq> None"
  by (simp add: buildTransaction_def sample_row_customer Let_def trim_def is_space_def
      cleanCustomerName_def is_newline_def toLowerCase_def lower_char_def)

theorem parenthesised_amount_negated_witness:
  "originalAmount (the (buildTransaction sample_env 0 sample_row)) = Fin (- (2501 / 2))
   \<and> trxType (the (buildTransaction sample_env 0 sample_row)) = Payment
   \<and> rowAmount sample_env (JStr ''(1,250.50)'') ''Payment'' = Fin (- (2501 / 2))
   \<and> js_lt0 (rowAmount sample_env (JStr ''(1,250.50)'') ''Payment'')"
proof -
  have p: "parseFloat (filter (\<lambda>c. c \<notin> set ''(),'') ''(1,250.50)'') = Fin (2501 / 2)"
    by (simp add: parseFloat_1250_50)
  have b: "buildTransaction sample_env 0 sample_row
             = Some (the (buildTransaction sample_env 0 sample_row))"
    using sample_row_builds by simp
  have ty: "trxType (the (buildTransaction sample_env 0 sample_row)) = Payment"
    using sample_row_builds
    by (auto simp: buildTransaction_def Let_def sample_row_type js_or_def is_payment_text_def
        toLowerCase_def lower_char_def split: if_splits)
  from parenthesised_amount_negated
         [of "''(1,250.50)''" sample_env "''Payment''" sample_row 0
             "the (buildTransaction sample_env 0 sample_row)"]
       p b ty sample_row_amount
  show ?thesis by simp
qed

section \<open>Rows the transaction builder discards\<close>

lemma trim_eq_Nil_iff: "trim s = [] \<longleftrightarrow> (\<forall>c\<in>set s. is_space c)"
proof -
  have "set s = set (takeWhile is_space s) \<union> set (dropWhile is_space s)"
    by (metis set_append takeWhile_dropWhile_id)
  moreover have "\<forall>c\<in>set (takeWhile is_space s). is_space c"
    by (auto dest: set_takeWhileD)
  ultimately show ?thesis
    by (auto simp: trim_def)
qed

lemma in_set_dropWhile: "x \<in> set cs \<Longrightarrow> \<not> P x \<Longrightarrow> x \<in> set (dropWhile P cs)"
  by (induction cs) auto

lemma collapse_runs_keeps: "x \<in> set s \<Longrightarrow> \<not> P x \<Longrightarrow> x \<in> set (collapse_runs P s)"
  by (induction P s rule: collapse_runs.induct) (auto simp: in_set_dropWhile)

lemma is_newline_space: "is_newline c \<Longrightarrow> is_space c"
  by (auto simp: is_newline_def is_space_def)

lemma cleanCustomerName_not_empty:
  assumes "truthy v" "trim (js_String env v) \<noteq> []"
  shows "cleanCustomerName env v \<noteq> []"
proof -
  from assms(2) obtain x where x: "x \<in> set (js_String env v)" "\<not> is_space x"
    by (auto simp: trim_eq_Nil_iff)
  then have "\<not> is_newline x"
    using is_newline_space by blast
  with x have "x \<in> set (collapse_runs is_space (collapse_runs is_newline (js_String env v)))"
    by (simp add: collapse_runs_keeps)
  with x(2) assms(1) show ?thesis
    by (auto simp: cleanCustomerName_def trim_eq_Nil_iff)
qed

lemma buildTransaction_None_iff:
  "buildTransaction env i r = None \<longleftrightarrow>
     \<not> truthy (findValue r customerNameKeys)
     \<or> trim (js_String env (findValue r customerNameKeys)) = []
     \<or> str_includes (toLowerCase (cleanCustomerName env (findValue r customerNameKeys))) ''total''"
  by (simp add: buildTransaction_def Let_def)

lemma buildTransaction_name:
  "buildTransaction env i r = Some t \<Longrightarrow>
     customerName t = cleanCustomerName env (findValue r customerNameKeys)"
  by (auto simp: buildTransaction_def Let_def split: if_splits)

lemma built_name_ok:
  assumes "buildTransaction env i r = Some t"
  shows "customerName t \<noteq> [] \<and> \<not> str_includes (toLowerCase (customerName t)) ''total''"
proof -
  from assms have "buildTransaction env i r \<noteq> None" by simp
  then have "truthy (findValue r customerNameKeys)"
    and "trim (js_String env (findValue r customerNameKeys)) \<noteq> []"
    and "\<not> str_includes (toLowerCase (cleanCustomerName env (findValue r customerNameKeys))) ''total''"
    by (simp_all add: buildTransaction_None_iff)
  then show ?thesis
    by (simp add: buildTransaction_name [OF assms] cleanCustomerName_not_empty)
qed

lemma in_buildTransactions:
  "t \<in> set (buildTransactions env rows) \<Longrightarrow>
     \<exists>i < length rows. buildTransaction env i (rows ! i) = Some t"
  by (auto simp: buildTransactions_def List.map_filter_def in_set_enumerate_eq)

lemma length_buildTransactions:
  "length (buildTransactions env rows) =
     length (filter (\<lambda>(i, r). buildTransaction env i r \<noteq> None) (enumerate 0 rows))"
  by (simp add: buildTransactions_def List.map_filter_def case_prod_unfold)

lemma processFile_unfold:
  "processFile env sheet =
     (if sheet_rows sheet = [] then Inl FileAppearsEmpty
      else case locateHeader env (sheet_rows sheet) of
             Inl e \<Rightarrow> Inl e
           | Inr i \<Rightarrow>
               if sheet_records sheet i = [] then Inl EmptyData
               else if buildTransactions env (sheet_records sheet i) = []
                    then Inl NoValidTransactions
                    else Inr (buildTransactions env (sheet_records sheet i)))"
  by (simp add: processFile_def Let_def split: sum.split)

lemma processFile_Inr:
  assumes "processFile env sheet = Inr ts"
  shows "\<exists>i. locateHeader env (sheet_rows sheet) = Inr i
         \<and> ts = buildTransactions env (sheet_records sheet i)"
proof (cases "locateHeader env (sheet_rows sheet)")
  case (Inl e)
  with assms show ?thesis
    by (simp add: processFile_unfold split: if_splits)
next
  case (Inr i)
  with assms have "ts = buildTransactions env (sheet_records sheet i)"
    by (simp add: processFile_unfold split: if_splits)
  with Inr show ?thesis by simp
qed

lemma total_clean: "cleanCustomerName env (JStr ''Total'') = ''Total''"
  by (simp add: cleanCustomerName_def is_newline_def is_space_def trim_def)

text \<open>
  Claim C9. The transaction builder emits no transaction for a row whose resolved
  customer name is absent or blank, and none for a row whose cleaned customer name
  contains ``total'' in any letter case (so a row whose name resolves to \<open>Total\<close> yields
  nothing); it emits one for every other row. A discarded row is skipped, not an error:
  the number of transactions built from a list of rows is the number of rows that are not
  discarded. Hence every emitted transaction, also every one that \<open>processFile\<close> hands
  on, has a non-empty customer name that does not contain ``total''.
\<close>

theorem builder_discards:
  "(buildTransaction env i r = None \<longleftrightarrow>
       \<not> truthy (findValue r customerNameKeys)
       \<or> trim (js_String env (findValue r customerNameKeys)) = []
       \<or> str_includes (toLowerCase (cleanCustomerName env (findValue r customerNameKeys))) ''total'')
   \<and> (findValue r customerNameKeys = JStr ''Total'' \<longrightarrow> buildTransaction env i r = None)
   \<and> (\<forall>t. buildTransaction env i r = Some t \<longrightarrow>
          customerName t \<noteq> [] \<and> \<not> str_includes (toLowerCase (customerName t)) ''total'')
   \<and> (\<forall>t\<in>set (buildTransactions env rows).
          customerName t \<noteq> [] \<and> \<not> str_includes (toLowerCase (customerName t)) ''total'')
   \<and> length (buildTransactions env rows) =
       length (filter (\<lambda>(i, r). buildTransaction env i r \<noteq> None) (enumerate 0 rows))
   \<and> (\<forall>ts. processFile env sheet = Inr ts \<longrightarrow>
          (\<forall>t\<in>set ts.
             customerName t \<noteq> [] \<and> \<not> str_includes (toLowerCase (customerName t)) ''total''))"
proof -
  let ?ok = "\<lambda>t. customerName t \<noteq> [] \<and> \<not> str_includes (toLowerCase (customerName t)) ''total''"
  have c2: "findValue r customerNameKeys = JStr ''Total'' \<longrightarrow> buildTransaction env i r = None"
    by (simp add: buildTransaction_None_iff total_clean toLowerCase_def lower_char_def)
  have c3: "\<forall>t. buildTransaction env i r = Some t \<longrightarrow> ?ok t"
    using built_name_ok by blast
  have rows: "?ok t" if "t \<in> set (buildTransactions env rs)" for t rs
  proof -
    from in_buildTransactions [OF that] obtain k
      where "buildTransaction env k (rs ! k) = Some t" by blast
    then show ?thesis by (rule built_name_ok)
  qed
  then have c4: "\<forall>t\<in>set (buildTransactions env rows). ?ok t"
    by blast
  have c6: "\<forall>ts. processFile env sheet = Inr ts \<longrightarrow> (\<forall>t\<in>set ts. ?ok t)"
  proof (intro allI impI ballI)
    fix ts t
    assume "processFile env sheet = Inr ts" and t: "t \<in> set ts"
    then obtain k where "ts = buildTransactions env (sheet_records sheet k)"
      using processFile_Inr by blast
    with t show "?ok t" using rows by blast
  qed
  show ?thesis
    by (rule conjI [OF buildTransaction_None_iff
          conjI [OF c2 conjI [OF c3 conjI [OF c4 conjI [OF length_buildTransactions c6]]]]])
qed


lemma total_row_customer: "findValue total_row customerNameKeys = JStr ''Total''"
  by (simp add: findValue_def total_row_def customerNameKeys_def exact_hit_def get_prop_def
      non_empty_def)

lemma blank_row_customer: "findValue blank_row customerNameKeys = JStr ''  ''"
  by (simp add: findValue_def blank_row_def customerNameKeys_def exact_hit_def get_prop_def
      non_empty_def)

lemma sample_row_builds_at: "buildTransaction sample_env k sample_row \<noteq> None"
  by (simp add: buildTransaction_None_iff sample_row_customer trim_def is_space_def
      cleanCustomerName_def is_newline_def toLowerCase_def lower_char_def)

theorem builder_discards_witness:
  "buildTransaction sample_env 0 total_row = None
   \<and> buildTransaction sample_env (Suc 0) blank_row = None
   \<and> buildTransactions sample_env [total_row] = []
   \<and> customerName (the (buildTransaction sample_env 2 sample_row)) = ''ACME Trading''
   \<and> length (buildTransactions sample_env [total_row, blank_row, sample_row]) = 1"
proof -
  have blank: "trim (js_String sample_env (findValue blank_row customerNameKeys)) = []"
    by (simp add: blank_row_customer trim_def is_space_def)
  have good: "buildTransaction sample_env 2 sample_row
                = Some (the (buildTransaction sample_env 2 sample_row))"
    using sample_row_builds_at [of 2] by simp
  have name: "customerName (the (buildTransaction sample_env 2 sample_row)) = ''ACME Trading''"
    using good
    by (simp add: buildTransaction_name sample_row_customer cleanCustomerName_def
        is_newline_def is_space_def trim_def)
  have t0: "buildTransaction sample_env 0 total_row = None"
    using builder_discards [of sample_env 0 total_row "[]" sample_sheet] total_row_customer
    by simp
  have t1: "buildTransaction sample_env (Suc 0) blank_row = None"
    using builder_discards [of sample_env "Suc 0" blank_row "[]" sample_sheet] blank
    by simp
  have t2: "\<exists>y. buildTransaction sample_env (Suc (Suc 0)) sample_row = Some y"
    using sample_row_builds_at [of "Suc (Suc 0)"] by simp
  have l: "length (buildTransactions sample_env [total_row, blank_row, sample_row]) = 1"
    using builder_discards [of sample_env 0 total_row "[total_row, blank_row, sample_row]" sample_sheet]
    by (simp add: t0 t1 t2)
  have e: "buildTransactions sample_env [total_row] = []"
    using builder_discards [of sample_env 0 total_row "[total_row]" sample_sheet]
    by (simp add: t0)
  from t0 t1 e name l show ?thesis by simp
qed

section \<open>The date normalizer\<close>

lemma digit_not_space: "is_digit c \<Longrightarrow> \<not> is_space c"
  by (auto simp: is_digit_def is_space_def)

lemma sep_not_digit: "is_sep c \<Longrightarrow> \<not> is_digit c"
  by (auto simp: is_sep_def is_digit_def)

lemma takeWhile_run:
  "list_all P xs \<Longrightarrow> \<not> P x \<Longrightarrow> takeWhile P (xs @ x # zs) = xs"
  by (induction xs) simp_all

lemma dropWhile_run:
  "list_all P xs \<Longrightarrow> \<not> P x \<Longrightarrow> dropWhile P (xs @ x # zs) = x # zs"
  by (induction xs) simp_all

lemma dropWhile_all: "list_all P xs \<Longrightarrow> dropWhile P (xs @ zs) = dropWhile P zs"
  by (induction xs) simp_all

text \<open>Trimming a text whose core starts and ends with a character that is not white space.\<close>

lemma trim_core:
  assumes "list_all is_space pre" "core \<noteq> []" "\<not> is_space (hd core)" "\<not> is_space (last core)"
  shows "trim (pre @ core @ rest) = core @ rev (dropWhile is_space (rev rest))"
proof -
  from assms(2,3) have lead: "dropWhile is_space (core @ rest) = core @ rest"
    by (cases core) simp_all
  from assms(2,4) have trail: "dropWhile is_space (rev core) = rev core"
    by (cases core rule: rev_cases) simp_all
  have "dropWhile is_space (rev rest @ rev core) = dropWhile is_space (rev rest) @ rev core"
    by (simp add: dropWhile_append trail)
  then show ?thesis
    by (simp add: trim_def dropWhile_all [OF assms(1)] lead)
qed

lemma match_dmy_parts:
  assumes d: "list_all is_digit d" "length d = 1 \<or> length d = 2"
    and m: "list_all is_digit m" "length m = 1 \<or> length m = 2"
    and y: "list_all is_digit y" "length y = 4"
    and s: "is_sep s1" "is_sep s2"
  shows "match_dmy (d @ s1 # m @ s2 # y @ tail) = Some (d, m, y)"
proof -
  have t1: "takeWhile is_digit (d @ s1 # m @ s2 # y @ tail) = d"
    and d1: "dropWhile is_digit (d @ s1 # m @ s2 # y @ tail) = s1 # m @ s2 # y @ tail"
    using d(1) s(1) by (simp_all add: takeWhile_run dropWhile_run sep_not_digit)
  have t2: "takeWhile is_digit (m @ s2 # y @ tail) = m"
    and d2: "dropWhile is_digit (m @ s2 # y @ tail) = s2 # y @ tail"
    using m(1) s(2) by (simp_all add: takeWhile_run dropWhile_run sep_not_digit)
  show ?thesis
    unfolding match_dmy_def t1 d1 Let_def
    using d(2) m(2) y s by (simp add: t2 d2)
qed

lemma parseDate_dmy:
  assumes pre: "list_all is_space pre"
    and d: "list_all is_digit d" "length d = 1 \<or> length d = 2"
    and m: "list_all is_digit m" "length m = 1 \<or> length m = 2"
    and y: "list_all is_digit y" "length y = 4"
    and s: "is_sep s1" "is_sep s2"
  shows "parseDate env (JStr (pre @ d @ s1 # m @ s2 # y @ rest))
           = y @ ''-'' @ padStart2 m @ ''-'' @ padStart2 d"
proof -
  let ?core = "d @ s1 # m @ s2 # y"
  from d have d_ne: "d \<noteq> []" by auto
  from y have y_ne: "y \<noteq> []" by auto
  have hd_core: "\<not> is_space (hd ?core)"
    using d(1) d_ne by (cases d) (simp_all add: digit_not_space)
  have "last ?core = last y"
    using y_ne by simp
  moreover have "is_digit (last y)"
    using y(1) y_ne by (simp add: list_all_iff)
  ultimately have last_core: "\<not> is_space (last ?core)"
    by (simp add: digit_not_space)
  have "trim (pre @ ?core @ rest) = ?core @ rev (dropWhile is_space (rev rest))"
    by (rule trim_core [OF pre _ hd_core last_core]) simp
  then have tr: "trim (pre @ d @ s1 # m @ s2 # y @ rest)
                   = d @ s1 # m @ s2 # y @ rev (dropWhile is_space (rev rest))"
    by simp
  have truthy: "truthy (JStr (pre @ d @ s1 # m @ s2 # y @ rest))"
    using d_ne by simp
  show ?thesis
    unfolding parseDate_def
    by (simp add: truthy serial_date_def tr match_dmy_parts [OF d m y s] del: truthy.simps)
qed

text \<open>
  Claim C4. For every raw date string that matches the pattern (one or two digits, a
  separator \<open>/\<close> or \<open>-\<close>, one or two digits, a separator, four digits, then anything),
  also after leading white space, the date normalizer takes the first group as the day
  and the second as the month, as written: the result is the year, the month group and
  the day group, each of the two padded to two digits. Nothing is swapped when the text
  would also read as month-day-year.
\<close>

theorem day_month_verbatim:
  assumes "list_all is_space pre"
    and "list_all is_digit d" "length d = 1 \<or> length d = 2"
    and "list_all is_digit m" "length m = 1 \<or> length m = 2"
    and "list_all is_digit y" "length y = 4"
    and "is_sep s1" "is_sep s2"
  shows "match_dmy (d @ s1 # m @ s2 # y @ tail) = Some (d, m, y)
         \<and> parseDate env (JStr (pre @ d @ s1 # m @ s2 # y @ rest))
             = y @ ''-'' @ padStart2 m @ ''-'' @ padStart2 d"
  using assms by (simp add: match_dmy_parts parseDate_dmy)

theorem day_month_verbatim_witness:
  "parseDate sample_env (JStr ''01/02/2024'') = ''2024-02-01''
   \<and> parseDate sample_env (JStr '' 5-1-2024 10:00'') = ''2024-01-05''
   \<and> match_dmy ''01/02/2024'' = Some (''01'', ''02'', ''2024'')"
proof -
  have a: "parseDate sample_env (JStr ''01/02/2024'') = ''2024-02-01''"
    using day_month_verbatim [of "[]" "''01''" "''02''" "''2024''" "CHR ''/''" "CHR ''/''"
        "[]" sample_env "[]"]
    by (simp add: is_digit_def is_sep_def padStart2_def)
  have b: "parseDate sample_env (JStr '' 5-1-2024 10:00'') = ''2024-01-05''"
    using day_month_verbatim [of "'' ''" "''5''" "''1''" "''2024''" "CHR ''-''" "CHR ''-''"
        "[]" sample_env "'' 10:00''"]
    by (simp add: is_digit_def is_sep_def is_space_def padStart2_def)
  have c: "match_dmy ''01/02/2024'' = Some (''01'', ''02'', ''2024'')"
    using day_month_verbatim [of "[]" "''01''" "''02''" "''2024''" "CHR ''/''" "CHR ''/''"
        "[]" sample_env "[]"]
    by (simp add: is_digit_def is_sep_def)
  from a b c show ?thesis by simp
qed

text \<open>
  Claim C5 says that the date normalizer always returns a valid calendar date. The
  day-month-year branch returns the groups it matched without looking at their ranges:
  \<open>31/02/2024\<close> becomes \<open>2024-02-31\<close> and \<open>45/13/2024\<close> becomes \<open>2024-13-45\<close>,
  neither of them a date of the calendar.
\<close>

theorem parseDate_unvalidated:
  "parseDate env (JStr ''31/02/2024'') = ''2024-02-31''
   \<and> \<not> valid_calendar_date ''2024-02-31''
   \<and> parseDate env (JStr ''45/13/2024'') = ''2024-13-45''
   \<and> \<not> valid_calendar_date ''2024-13-45''"
proof -
  have a: "parseDate env (JStr ''31/02/2024'') = ''2024-02-31''"
    using parseDate_dmy [of "[]" "''31''" "''02''" "''2024''" "CHR ''/''" "CHR ''/''" env "[]"]
    by (simp add: is_digit_def is_sep_def padStart2_def)
  have b: "parseDate env (JStr ''45/13/2024'') = ''2024-13-45''"
    using parseDate_dmy [of "[]" "''45''" "''13''" "''2024''" "CHR ''/''" "CHR ''/''" env "[]"]
    by (simp add: is_digit_def is_sep_def padStart2_def)
  have c: "\<not> valid_calendar_date ''2024-02-31''"
    by (simp add: valid_calendar_date_def iso_date_only_def is_digit_def digits_val_def
        digit_val_def days_in_month_def is_leap_def Let_def)
  have e: "\<not> valid_calendar_date ''2024-13-45''"
    by (simp add: valid_calendar_date_def iso_date_only_def is_digit_def digits_val_def
        digit_val_def days_in_month_def is_leap_def Let_def)
  from a c b e show ?thesis by simp
qed

section \<open>The field resolver\<close>

lemma first_return_hits:
  "first_return hit keys = (case List.map_filter hit keys of [] \<Rightarrow> None | v # _ \<Rightarrow> Some v)"
  by (induction keys) (simp_all add: List.map_filter_simps split: option.split)

lemma map_filter_tier:
  "List.map_filter (\<lambda>(t, k). tier_value r t k) (map (\<lambda>k. (t, k)) keys)
     = List.map_filter (tier_value r t) keys"
  by (induction keys) (simp_all add: List.map_filter_simps split: option.split)

lemma map_filter_app:
  "List.map_filter f (xs @ ys) = List.map_filter f xs @ List.map_filter f ys"
  by (simp add: List.map_filter_def)

lemma find_first_entry:
  "find matches (map fst r) =
     (case filter (\<lambda>kv. matches (fst kv)) r of [] \<Rightarrow> None | kv # _ \<Rightarrow> Some (fst kv))"
  by (induction r) simp_all

lemma first_entry_lookup:
  "filter (\<lambda>kv. matches (fst kv)) r = kv # rest \<Longrightarrow> map_of r (fst kv) = Some (snd kv)"
proof (induction r)
  case Nil
  then show ?case by simp
next
  case (Cons e r)
  have m: "matches (fst kv)"
    using filter_eq_ConsD [OF Cons.prems] by blast
  show ?case
  proof (cases "matches (fst e)")
    case True
    then have "e = kv" using Cons.prems by simp
    then show ?thesis by (cases kv) simp
  next
    case False
    then have "fst e \<noteq> fst kv" using m by auto
    moreover have "filter (\<lambda>kv. matches (fst kv)) r = kv # rest"
      using Cons.prems False by simp
    ultimately show ?thesis
      using Cons.IH by (cases e) simp
  qed
qed

lemma found_hit_first_entry:
  "found_hit r (find matches (rowKeys r)) = first_entry_value r matches"
proof (cases "filter (\<lambda>kv. matches (fst kv)) r")
  case Nil
  then show ?thesis
    by (simp add: found_hit_def first_entry_value_def rowKeys_def find_first_entry)
next
  case (Cons kv rest)
  then have "get_prop r (fst kv) = snd kv"
    by (simp add: get_prop_def first_entry_lookup)
  then show ?thesis
    using Cons by (simp add: found_hit_def first_entry_value_def rowKeys_def find_first_entry)
qed

lemma exact_hit_first_entry: "exact_hit r candidate = tier_value r Exact candidate"
proof (cases "filter (\<lambda>kv. fst kv = candidate) r")
  case Nil
  then have "candidate \<notin> fst ` set r"
    by (auto simp: filter_empty_conv)
  then have "map_of r candidate = None"
    by (simp add: map_of_eq_None_iff)
  then show ?thesis
    using Nil by (simp add: exact_hit_def get_prop_def non_empty_def)
next
  case (Cons kv rest)
  have "fst kv = candidate"
    using filter_eq_ConsD [OF Cons] by blast
  moreover have "map_of r (fst kv) = Some (snd kv)"
    using Cons by (rule first_entry_lookup)
  ultimately show ?thesis
    using Cons by (simp add: exact_hit_def get_prop_def)
qed

lemma tier_value_fun:
  "tier_value r Exact = exact_hit r"
  "tier_value r CaseInsensitive = insensitive_hit r"
  "tier_value r Substring = partial_hit r"
  by (simp_all only: fun_eq_iff exact_hit_first_entry insensitive_hit_def partial_hit_def
      found_hit_first_entry tier_value.simps simp_thms)

lemma hits_tier_major:
  "List.map_filter (\<lambda>(t, k). tier_value r t k) (tier_major keys)
     = List.map_filter (exact_hit r) keys
       @ List.map_filter (insensitive_hit r) keys
       @ List.map_filter (partial_hit r) keys"
  by (simp add: tier_major_def map_filter_app map_filter_tier tier_value_fun)

lemma findValue_resolve: "findValue r keys = resolve r keys"
  unfolding findValue_def resolve_def hits_tier_major first_return_hits
  by (simp split: list.split)

lemma findValue_exact_first:
  "non_empty (get_prop r k) \<Longrightarrow> findValue r (k # keys) = get_prop r k"
  by (simp add: findValue_def exact_hit_def)

text \<open>
  Claim C6, as stated, does not hold: the answer is not always the first non-empty hit.
  In the record with the keys \<open>total\<close> (empty) and \<open>TOTAL\<close> (value \<open>5\<close>) the candidate
  \<open>Total\<close> resolves to \<open>undefined\<close>, because the case-insensitive and the substring pass
  both stop at the first matching key, \<open>total\<close>, although \<open>TOTAL\<close> matches as well and is
  not empty. A record with a \<open>Net Amount\<close> key and a \<open>Total\<close> key whose value is empty
  resolves the candidates \<open>Total\<close>, \<open>Amount\<close> to the value of \<open>Net Amount\<close>. And the
  second pass is not an exact match but for letter case: it ignores the white space
  around a key, so that the key \<open>total\<close> with a space on either side answers the
  candidate \<open>Total\<close> in the second pass, before \<open>NET AMOUNT\<close> can answer the earlier
  candidate \<open>Amount\<close> in the third.
\<close>

theorem first_non_empty_missed:
  "findValue shadowed_row [''Total''] = JUndefined
   \<and> first_non_empty shadowed_row [''Total''] = JStr ''5''
   \<and> findValue empty_total_row [''Total'', ''Amount''] = JStr ''90''
   \<and> get_prop empty_total_row ''Total'' = JStr []
   \<and> findValue spaced_row [''Amount'', ''Total''] = JStr ''100''
   \<and> first_non_empty spaced_row [''Amount'', ''Total''] = JStr ''90''"
proof -
  have a: "findValue shadowed_row [''Total''] = JUndefined"
    by (simp add: findValue_def exact_hit_def insensitive_hit_def partial_hit_def found_hit_def
        rowKeys_def get_prop_def non_empty_def shadowed_row_def toLowerCase_def lower_char_def
        trim_def is_space_def)
  have b: "first_non_empty shadowed_row [''Total''] = JStr ''5''"
    by (simp add: first_non_empty_def matching_values_def tier_major_def non_empty_def
        shadowed_row_def toLowerCase_def lower_char_def)
  have c: "findValue empty_total_row [''Total'', ''Amount''] = JStr ''90''"
    by (simp add: findValue_def exact_hit_def insensitive_hit_def partial_hit_def found_hit_def
        rowKeys_def get_prop_def non_empty_def empty_total_row_def toLowerCase_def lower_char_def
        trim_def is_space_def)
  have d: "get_prop empty_total_row ''Total'' = JStr []"
    by (simp add: get_prop_def empty_total_row_def)
  have e: "findValue spaced_row [''Amount'', ''Total''] = JStr ''100''"
    by (simp add: findValue_def exact_hit_def insensitive_hit_def partial_hit_def found_hit_def
        rowKeys_def get_prop_def non_empty_def spaced_row_def toLowerCase_def lower_char_def
        trim_def is_space_def)
  have f: "first_non_empty spaced_row [''Amount'', ''Total''] = JStr ''90''"
    by (simp add: first_non_empty_def matching_values_def tier_major_def non_empty_def
        spaced_row_def toLowerCase_def lower_char_def)
  from a b c d e f show ?thesis by simp
qed

text \<open>
  Claim C6, amended. Field resolution runs three passes over the candidate list: exact
  key match, then case-insensitive key match (white space around the key and the
  candidate is ignored), then case-insensitive substring match (the record key contains
  the candidate). Each pass goes through all candidates in order before the next pass
  begins. In the second and third pass a candidate is looked up under the first record
  key that matches it, and under no other; a candidate hits when the key it is looked up
  under is not the empty string (second and third pass) and the value there is none of
  \<open>undefined\<close>, \<open>null\<close> and the empty string. The value of the first hit is returned, and
  \<open>undefined\<close> when there is none: \<open>findValue\<close> is \<open>resolve\<close>. So for the candidates
  \<open>Total\<close>, \<open>Amount\<close> and a record with a \<open>Net Amount\<close> key and a \<open>Total\<close> key that has a
  non-empty value, the resolver returns the value of \<open>Total\<close>.
\<close>

theorem three_pass_first_key:
  "findValue r candidates = resolve r candidates
   \<and> (non_empty (get_prop r ''Total'') \<longrightarrow>
        findValue r [''Total'', ''Amount''] = get_prop r ''Total'')"
  using findValue_resolve [of r candidates] findValue_exact_first [of r "''Total''" "[''Amount'']"]
  by blast

theorem three_pass_first_key_witness:
  "findValue amount_row [''Total'', ''Amount''] = JStr ''100''
   \<and> findValue amount_row [''Amount'', ''Total''] = JStr ''100''
   \<and> findValue amount_row [''Amount''] = JStr ''90''
   \<and> findValue spaced_row [''Amount'', ''Total''] = JStr ''100''
   \<and> findValue spaced_row [''Amount''] = JStr ''90''
   \<and> findValue shadowed_row [''Total''] = JUndefined"
proof -
  have t: "non_empty (get_prop amount_row ''Total'')" "get_prop amount_row ''Total'' = JStr ''100''"
    by (simp_all add: get_prop_def amount_row_def non_empty_def)
  note ev = resolve_def tier_major_def List.map_filter_simps first_entry_value_def non_empty_def
    toLowerCase_def lower_char_def trim_def is_space_def
  have r1: "resolve amount_row [''Amount'', ''Total''] = JStr ''100''"
    by (simp add: ev amount_row_def)
  have r2: "resolve amount_row [''Amount''] = JStr ''90''"
    by (simp add: ev amount_row_def)
  have r3: "resolve spaced_row [''Amount'', ''Total''] = JStr ''100''"
    by (simp add: ev spaced_row_def)
  have r4: "resolve spaced_row [''Amount''] = JStr ''90''"
    by (simp add: ev spaced_row_def)
  have r5: "resolve shadowed_row [''Total''] = JUndefined"
    by (simp add: ev shadowed_row_def)
  have first: "findValue amount_row [''Total'', ''Amount''] = JStr ''100''"
    using three_pass_first_key [of amount_row "[''Total'', ''Amount'']", THEN conjunct2] t
    by simp
  have e1: "findValue amount_row [''Amount'', ''Total''] = resolve amount_row [''Amount'', ''Total'']"
    using three_pass_first_key [of amount_row "[''Amount'', ''Total'']"] by (rule conjunct1)
  have e2: "findValue amount_row [''Amount''] = resolve amount_row [''Amount'']"
    using three_pass_first_key [of amount_row "[''Amount'']"] by (rule conjunct1)
  have e3: "findValue spaced_row [''Amount'', ''Total''] = resolve spaced_row [''Amount'', ''Total'']"
    using three_pass_first_key [of spaced_row "[''Amount'', ''Total'']"] by (rule conjunct1)
  have e4: "findValue spaced_row [''Amount''] = resolve spaced_row [''Amount'']"
    using three_pass_first_key [of spaced_row "[''Amount'']"] by (rule conjunct1)
  have e5: "findValue shadowed_row [''Total''] = resolve shadowed_row [''Total'']"
    using three_pass_first_key [of shadowed_row "[''Total'']"] by (rule conjunct1)
  show ?thesis
    unfolding e1 e2 e3 e4 e5 r1 r2 r3 r4 r5 using first by simp
qed

section \<open>The header locator\<close>

lemma scan_rows_Some_iff:
  "scan_rows env g i = Some j \<longleftrightarrow>
     i \<le> j \<and> j < min (length g) 50 \<and> is_header_row env (g ! j)
     \<and> (\<forall>k. i \<le> k \<and> k < j \<longrightarrow> \<not> is_header_row env (g ! k))"
proof (induction env g i rule: scan_rows.induct)
  case (1 env rawRows i)
  show ?case
  proof (cases "i < min (length rawRows) 50")
    case False
    then show ?thesis
      by (subst scan_rows.simps) auto
  next
    case inside: True
    show ?thesis
    proof (cases "is_header_row env (rawRows ! i)")
      case True
      have "scan_rows env rawRows i = Some i"
        using inside True by (subst scan_rows.simps) simp
      moreover have "j = i" if "i \<le> j" "\<forall>k. i \<le> k \<and> k < j \<longrightarrow> \<not> is_header_row env (rawRows ! k)"
        using that True by (metis le_neq_implies_less order_refl)
      ultimately show ?thesis
        using inside True by auto
    next
      case False
      have step: "scan_rows env rawRows i = scan_rows env rawRows (Suc i)"
        using inside False by (subst scan_rows.simps) simp
      have "(\<forall>k. i \<le> k \<and> k < j \<longrightarrow> \<not> is_header_row env (rawRows ! k))
              \<longleftrightarrow> (\<forall>k. Suc i \<le> k \<and> k < j \<longrightarrow> \<not> is_header_row env (rawRows ! k))"
        if "Suc i \<le> j"
        using False by (metis Suc_leI le_neq_implies_less Suc_leD)
      moreover have "i \<noteq> j" if "is_header_row env (rawRows ! j)"
        using that False by auto
      ultimately show ?thesis
        unfolding step "1.IH" [OF inside False]
        by (metis Suc_leD Suc_leI le_neq_implies_less)
    qed
  qed
qed

lemma scan_rows_None_iff:
  "scan_rows env g i = None \<longleftrightarrow>
     (\<forall>k. i \<le> k \<and> k < min (length g) 50 \<longrightarrow> \<not> is_header_row env (g ! k))"
proof (induction env g i rule: scan_rows.induct)
  case (1 env rawRows i)
  show ?case
  proof (cases "i < min (length rawRows) 50")
    case False
    then show ?thesis
      by (subst scan_rows.simps) auto
  next
    case inside: True
    show ?thesis
    proof (cases "is_header_row env (rawRows ! i)")
      case True
      have "scan_rows env rawRows i = Some i"
        using inside True by (subst scan_rows.simps) simp
      then show ?thesis
        using inside True by auto
    next
      case False
      have step: "scan_rows env rawRows i = scan_rows env rawRows (Suc i)"
        using inside False by (subst scan_rows.simps) simp
      show ?thesis
        unfolding step "1.IH" [OF inside False]
        using False by (metis Suc_leD Suc_leI le_neq_implies_less)
    qed
  qed
qed


lemma locateHeader_Inr_iff:
  "locateHeader env g = Inr j \<longleftrightarrow>
     j < min (length g) 50 \<and> is_header_row env (g ! j)
     \<and> (\<forall>k<j. \<not> is_header_row env (g ! k))"
proof -
  have "locateHeader env g = Inr j \<longleftrightarrow> scan_rows env g 0 = Some j"
    by (simp add: locateHeader_def split: option.split)
  then show ?thesis
    by (simp add: scan_rows_Some_iff)
qed

lemma locateHeader_Inl_iff:
  "locateHeader env g = Inl e \<longleftrightarrow>
     e = HeaderNotFound \<and> (\<forall>k < min (length g) 50. \<not> is_header_row env (g ! k))"
proof -
  have "locateHeader env g = Inl e \<longleftrightarrow> e = HeaderNotFound \<and> scan_rows env g 0 = None"
    by (auto simp: locateHeader_def split: option.split)
  then show ?thesis
    by (simp add: scan_rows_None_iff)
qed

lemma locateHeader_window: "locateHeader env (take 50 g) = locateHeader env g"
proof (cases "locateHeader env g")
  case (Inl e)
  then have "locateHeader env (take 50 g) = Inl e"
    by (simp add: locateHeader_Inl_iff)
  with Inl show ?thesis by simp
next
  case (Inr j)
  then have "locateHeader env (take 50 g) = Inr j"
    by (simp add: locateHeader_Inr_iff)
  with Inr show ?thesis by simp
qed

lemma is_header_row_iff:
  "is_header_row env cells \<longleftrightarrow>
     (\<exists>cell\<in>set cells. truthy cell
        \<and> (\<exists>k\<in>set customerKeywords. str_includes (toLowerCase (js_String env cell)) k))"
  by (simp add: is_header_row_def is_header_cell_def list_ex_iff)

lemma processFile_no_header:
  assumes "sheet_rows sheet \<noteq> []" "locateHeader env (sheet_rows sheet) = Inl e"
  shows "processFile env sheet = Inl HeaderNotFound"
proof -
  from assms(2) have "e = HeaderNotFound"
    by (simp add: locateHeader_Inl_iff)
  with assms show ?thesis
    by (simp add: processFile_unfold)
qed

lemma processFile_no_data:
  assumes "locateHeader env (sheet_rows sheet) = Inr j" "sheet_records sheet j = []"
  shows "processFile env sheet = Inl EmptyData"
proof -
  from assms(1) have "j < length (sheet_rows sheet)"
    by (simp add: locateHeader_Inr_iff)
  then have "sheet_rows sheet \<noteq> []"
    by auto
  with assms show ?thesis
    by (simp add: processFile_unfold)
qed

text \<open>
  Claim C7. For every grid the header locator looks at the first 50 rows at most and
  picks the row of lowest index in which some cell, lower-cased, contains one of the
  keywords customer, client, party name, bill to, account name, payer. A grid whose only
  keyword row among the first 50 is row 12 is located there. A grid with no keyword row
  in the first 50 rows fails with \<open>HeaderNotFound\<close>, and a located header below which the
  library finds no record fails with \<open>EmptyData\<close>; in both cases \<open>processFile\<close> ends with
  the error and hands no transaction on. \<open>processFile\<close> runs the locator on non-empty
  grids only: a sheet without any row is refused before the scan, as an empty file.
\<close>

theorem header_location:
  "(locateHeader env g = Inr j \<longleftrightarrow>
      j < min (length g) 50 \<and> is_header_row env (g ! j)
      \<and> (\<forall>k<j. \<not> is_header_row env (g ! k)))
   \<and> (locateHeader env g = Inl e \<longleftrightarrow>
      e = HeaderNotFound \<and> (\<forall>k < min (length g) 50. \<not> is_header_row env (g ! k)))
   \<and> locateHeader env (take 50 g) = locateHeader env g
   \<and> (is_header_row env cells \<longleftrightarrow>
      (\<exists>cell\<in>set cells. truthy cell
         \<and> (\<exists>k\<in>set customerKeywords. str_includes (toLowerCase (js_String env cell)) k)))
   \<and> customerKeywords =
       [''customer'', ''client'', ''party name'', ''bill to'', ''account name'', ''payer'']
   \<and> (12 < length g \<and> is_header_row env (g ! 12) \<and> (\<forall>k<12. \<not> is_header_row env (g ! k))
      \<longrightarrow> locateHeader env g = Inr 12)
   \<and> (sheet_rows sheet \<noteq> [] \<and> locateHeader env (sheet_rows sheet) = Inl e
      \<longrightarrow> processFile env sheet = Inl HeaderNotFound)
   \<and> (locateHeader env (sheet_rows sheet) = Inr j \<and> sheet_records sheet j = []
      \<longrightarrow> processFile env sheet = Inl EmptyData)
   \<and> (sheet_rows sheet = [] \<longrightarrow> processFile env sheet = Inl FileAppearsEmpty)"
proof -
  have ef: "sheet_rows sheet = [] \<longrightarrow> processFile env sheet = Inl FileAppearsEmpty"
    by (simp add: processFile_unfold)
  have twelve: "12 < length g \<and> is_header_row env (g ! 12)
      \<and> (\<forall>k<12. \<not> is_header_row env (g ! k)) \<longrightarrow> locateHeader env g = Inr 12"
    by (simp add: locateHeader_Inr_iff)
  have nh: "sheet_rows sheet \<noteq> [] \<and> locateHeader env (sheet_rows sheet) = Inl e
      \<longrightarrow> processFile env sheet = Inl HeaderNotFound"
    using processFile_no_header by blast
  have nd: "locateHeader env (sheet_rows sheet) = Inr j \<and> sheet_records sheet j = []
      \<longrightarrow> processFile env sheet = Inl EmptyData"
    using processFile_no_data by blast
  show ?thesis
    by (rule conjI [OF locateHeader_Inr_iff conjI [OF locateHeader_Inl_iff
          conjI [OF locateHeader_window conjI [OF is_header_row_iff
          conjI [OF customerKeywords_def conjI [OF twelve conjI [OF nh conjI [OF nd ef]]]]]]]])
qed

lemma title_row_plain: "\<not> is_header_row env [JStr ''Statement of account export'']"
  by (simp add: is_header_row_def is_header_cell_def customerKeywords_def toLowerCase_def
      lower_char_def)

lemma header_row_found:
  "is_header_row env [JStr ''Trx Date'', JStr ''Customer Name'', JStr ''Trx Type'',
      JStr ''Net Amount'', JStr ''Total'']"
  by (simp add: is_header_row_def is_header_cell_def customerKeywords_def toLowerCase_def
      lower_char_def)

theorem header_location_witness:
  "locateHeader sample_env sample_grid = Inr 12
   \<and> locateHeader sample_env untitled_grid = Inl HeaderNotFound
   \<and> processFile sample_env \<lparr> sheet_rows = untitled_grid, sheet_records = (\<lambda>i. []) \<rparr>
       = Inl HeaderNotFound
   \<and> processFile sample_env (sample_sheet\<lparr> sheet_records := (\<lambda>i. []) \<rparr>) = Inl EmptyData"
proof -
  let ?none = "\<lparr> sheet_rows = untitled_grid, sheet_records = (\<lambda>i. []) \<rparr>"
  let ?bare = "sample_sheet\<lparr> sheet_records := (\<lambda>i. []) \<rparr>"
  have len: "length sample_grid = 16" "length untitled_grid = 51"
    by (simp_all add: sample_grid_def untitled_grid_def)
  have early: "\<not> is_header_row sample_env (sample_grid ! k)" if "k < 12" for k
    using that by (simp add: sample_grid_def nth_append title_row_plain)
  have at12: "is_header_row sample_env (sample_grid ! 12)"
    by (simp add: sample_grid_def nth_append header_row_found)
  have plain: "\<not> is_header_row sample_env (untitled_grid ! k)" if "k < 50" for k
    using that by (simp add: untitled_grid_def nth_append title_row_plain)
  note h1 = header_location [of sample_env sample_grid 12 HeaderNotFound "[]" ?bare]
  note h2 = header_location [of sample_env untitled_grid 0 HeaderNotFound "[]" ?none]
  have a: "locateHeader sample_env sample_grid = Inr 12"
    using h1 [THEN conjunct1] len early at12 by simp
  have b: "locateHeader sample_env untitled_grid = Inl HeaderNotFound"
    using h2 [THEN conjunct2, THEN conjunct1] len plain by simp
  have ne: "untitled_grid \<noteq> []"
    using len by auto
  have c: "processFile sample_env ?none = Inl HeaderNotFound"
    using h2 b ne by simp
  have d: "processFile sample_env ?bare = Inl EmptyData"
    using h1 a by (simp add: sample_sheet_def)
  from a b c d show ?thesis by simp
qed

section \<open>The merge stage\<close>

lemma mset_insert_sorted: "mset (insert_sorted cmp x xs) = add_mset x (mset xs)"
  by (induction xs) simp_all

lemma mset_js_sort: "mset (js_sort cmp xs) = mset xs"
  by (induction xs) (simp_all add: js_sort_def mset_insert_sorted)

lemma set_js_sort: "set (js_sort cmp xs) = set xs"
  by (metis mset_js_sort set_mset_mset)

lemma by_date_readable:
  "readable_date env a \<Longrightarrow> readable_date env b \<Longrightarrow>
     sort_compare (by_date env) a b \<le> 0 \<longleftrightarrow> entry_time env a \<le> entry_time env b"
  by (auto simp: sort_compare_def by_date_def readable_date_def entry_time_def)

lemma insert_sorted_by_date:
  "readable_date env x \<Longrightarrow> list_all (readable_date env) ys \<Longrightarrow>
     insert_sorted (by_date env) x ys = insort_key (entry_time env) x ys"
  by (induction ys) (simp_all add: by_date_readable)

lemma js_sort_by_date:
  "list_all (readable_date env) xs \<Longrightarrow>
     js_sort (by_date env) xs = sort_key (entry_time env) xs"
proof (induction xs)
  case Nil
  show ?case by (simp add: js_sort_def)
next
  case (Cons x xs)
  then have ih: "js_sort (by_date env) xs = sort_key (entry_time env) xs"
    and x: "readable_date env x" and xs: "list_all (readable_date env) xs"
    by simp_all
  from xs have "list_all (readable_date env) (sort_key (entry_time env) xs)"
    by (simp add: list_all_iff)
  with x have "insert_sorted (by_date env) x (sort_key (entry_time env) xs)
                 = insort_key (entry_time env) x (sort_key (entry_time env) xs)"
    by (rule insert_sorted_by_date)
  moreover have "js_sort (by_date env) (x # xs) = insert_sorted (by_date env) x (js_sort (by_date env) xs)"
    by (simp add: js_sort_def)
  ultimately show ?case
    by (simp add: ih sort_key_def)
qed

lemma abs_uminus_jsnum: "\<bar>- x\<bar> = \<bar>x :: jsnum\<bar>"
  by (cases x) simp_all

lemma not_negative_abs: "\<not> js_lt0 \<bar>x :: jsnum\<bar>"
  by (cases x) simp_all

lemma mset_allTrxs:
  "mset (allTrxs env fs ms c cfg) =
     image_mset (toInvoice (refTrx ms c)) (filter_mset (in_statement c cfg) (mset fs))
     + image_mset toPayment (filter_mset (in_statement c cfg) (mset ms))"
  by (simp add: allTrxs_def mset_js_sort invoiceTrxs_def paymentTrxs_def)

lemma allTrxs_readable:
  assumes "list_all (readable_date env) (allTrxs env fs ms c cfg)"
  shows "allTrxs env fs ms c cfg =
           sort_key (entry_time env)
             (map (toInvoice (refTrx ms c)) (filter (in_statement c cfg) fs)
              @ map toPayment (filter (in_statement c cfg) ms))"
proof -
  let ?xs = "invoiceTrxs fs ms c cfg @ paymentTrxs ms c cfg"
  from assms have "list_all (readable_date env) ?xs"
    by (simp add: allTrxs_def list_all_iff set_js_sort)
  then have "js_sort (by_date env) ?xs = sort_key (entry_time env) ?xs"
    by (rule js_sort_by_date)
  then show ?thesis
    by (simp add: allTrxs_def invoiceTrxs_def paymentTrxs_def)
qed

text \<open>
  Claim C2. The merge stage selects exactly the file transactions of the target customer
  whose date is in the inclusive range from \<open>startDate\<close> to \<open>endDate\<close>, makes each an
  \<open>INVOICE\<close> with the rendering amount \<open>|originalAmount|\<close>; selects the manual
  transactions by the same test and makes each a \<open>PAYMENT\<close> with the rendering amount
  \<open>-|originalAmount|\<close>, whatever the sign of the stored amount; and returns both sets,
  concatenated and sorted by date in ascending order. The range test compares the date
  strings, as the source does. The result is sorted (the stable sort of the
  concatenation by time value) when the date of every selected entry can be read by
  \<open>new Date\<close>; it is a rearrangement of the two selected sets in every case.
\<close>

theorem merge_stage:
  "mset (allTrxs env fs ms c cfg) =
     image_mset (toInvoice (refTrx ms c)) (filter_mset (in_statement c cfg) (mset fs))
     + image_mset toPayment (filter_mset (in_statement c cfg) (mset ms))
   \<and> (in_statement c cfg t \<longleftrightarrow>
        customerName t = c \<and> str_le (startDate cfg) (trxDate t)
        \<and> str_le (trxDate t) (endDate cfg))
   \<and> trxType (toInvoice r t) = INVOICE
   \<and> calculatedAmount (toInvoice r t) = \<bar>originalAmount t\<bar>
   \<and> \<not> js_lt0 (calculatedAmount (toInvoice r t))
   \<and> trxType (toPayment t) = PAYMENT
   \<and> calculatedAmount (toPayment t) = - \<bar>originalAmount t\<bar>
   \<and> \<not> js_gt0 (calculatedAmount (toPayment t))
   \<and> calculatedAmount (toPayment (t\<lparr>originalAmount := - originalAmount t\<rparr>))
       = calculatedAmount (toPayment t)
   \<and> trxDate (toInvoice r t) = trxDate t \<and> trxDate (toPayment t) = trxDate t
   \<and> customerName (toInvoice r t) = customerName t
   \<and> customerName (toPayment t) = customerName t
   \<and> (list_all (readable_date env) (allTrxs env fs ms c cfg) \<longrightarrow>
        sorted (map (entry_time env) (allTrxs env fs ms c cfg))
        \<and> allTrxs env fs ms c cfg =
            sort_key (entry_time env)
              (map (toInvoice (refTrx ms c)) (filter (in_statement c cfg) fs)
               @ map toPayment (filter (in_statement c cfg) ms)))"
proof -
  have ordered: "list_all (readable_date env) (allTrxs env fs ms c cfg) \<longrightarrow>
        sorted (map (entry_time env) (allTrxs env fs ms c cfg))
        \<and> allTrxs env fs ms c cfg =
            sort_key (entry_time env)
              (map (toInvoice (refTrx ms c)) (filter (in_statement c cfg) fs)
               @ map toPayment (filter (in_statement c cfg) ms))"
  proof
    assume r: "list_all (readable_date env) (allTrxs env fs ms c cfg)"
    note eq = allTrxs_readable [OF r]
    have "sorted (map (entry_time env) (allTrxs env fs ms c cfg))"
      by (subst eq) simp
    with eq show "sorted (map (entry_time env) (allTrxs env fs ms c cfg))
        \<and> allTrxs env fs ms c cfg =
            sort_key (entry_time env)
              (map (toInvoice (refTrx ms c)) (filter (in_statement c cfg) fs)
               @ map toPayment (filter (in_statement c cfg) ms))"
      by simp
  qed
  have fields: "trxType (toInvoice r t) = INVOICE"
    "calculatedAmount (toInvoice r t) = \<bar>originalAmount t\<bar>"
    "\<not> js_lt0 (calculatedAmount (toInvoice r t))"
    "trxType (toPayment t) = PAYMENT"
    "calculatedAmount (toPayment t) = - \<bar>originalAmount t\<bar>"
    "\<not> js_gt0 (calculatedAmount (toPayment t))"
    "calculatedAmount (toPayment (t\<lparr>originalAmount := - originalAmount t\<rparr>))
       = calculatedAmount (toPayment t)"
    "trxDate (toInvoice r t) = trxDate t" "trxDate (toPayment t) = trxDate t"
    "customerName (toInvoice r t) = customerName t"
    "customerName (toPayment t) = customerName t"
    by (simp_all add: toInvoice_def toPayment_def not_negative_abs not_positive_neg_abs
        abs_uminus_jsnum)
  show ?thesis
    using mset_allTrxs [of env fs ms c cfg] in_statement_def [of c cfg t] fields ordered
    by (intro conjI) assumption+
qed

lemma iso_2024_01_20: "iso_date_only ''2024-01-20'' = Some 1705708800000"
  by (simp add: iso_date_only_def is_digit_def digits_val_def digit_val_def days_in_month_def
      days_from_civil_def Let_def)

theorem merge_stage_witness:
  "map (\<lambda>e. (trxDate e, trxType e, calculatedAmount e))
     (allTrxs sample_env
        [sample_invoice\<lparr>trxDate := ''2024-01-20'', originalAmount := Fin (- 70)\<rparr>,
         sample_invoice\<lparr>trxDate := ''2024-02-01''\<rparr>,
         sample_invoice\<lparr>customerName := ''Other''\<rparr>,
         sample_invoice]
        [sample_payment] ''ACME Trading'' sample_config)
     = [(''2024-01-05'', INVOICE, Fin 500), (''2024-01-10'', PAYMENT, Fin (- 200)),
        (''2024-01-20'', INVOICE, Fin 70)]
   \<and> sorted (map (entry_time sample_env)
        (allTrxs sample_env
           [sample_invoice\<lparr>trxDate := ''2024-01-20'', originalAmount := Fin (- 70)\<rparr>,
            sample_invoice\<lparr>trxDate := ''2024-02-01''\<rparr>,
            sample_invoice\<lparr>customerName := ''Other''\<rparr>,
            sample_invoice]
           [sample_payment] ''ACME Trading'' sample_config))"
proof -
  let ?late = "sample_invoice\<lparr>trxDate := ''2024-01-20'', originalAmount := Fin (- 70)\<rparr>"
  let ?fs = "[?late, sample_invoice\<lparr>trxDate := ''2024-02-01''\<rparr>,
              sample_invoice\<lparr>customerName := ''Other''\<rparr>, sample_invoice]"
  let ?L = "allTrxs sample_env ?fs [sample_payment] ''ACME Trading'' sample_config"
  let ?r = "Some sample_payment"
  have sel: "filter (in_statement ''ACME Trading'' sample_config) ?fs = [?late, sample_invoice]"
    "filter (in_statement ''ACME Trading'' sample_config) [sample_payment] = [sample_payment]"
    by (simp_all add: in_statement_def sample_invoice_def sample_payment_def sample_config_def)
  have ref: "refTrx [sample_payment] ''ACME Trading'' = ?r"
    by (simp add: refTrx_def sample_payment_def)
  have t: "Date_getTime sample_env (trxDate (toInvoice ?r ?late)) = Some 1705708800000"
    "Date_getTime sample_env (trxDate (toInvoice ?r sample_invoice)) = Some 1704412800000"
    "Date_getTime sample_env (trxDate (toPayment sample_payment)) = Some 1704844800000"
    by (simp_all add: toInvoice_def toPayment_def sample_invoice_def sample_payment_def
        getTime_iso iso_2024_01_05 iso_2024_01_10 iso_2024_01_20)
  have L: "?L = [toInvoice ?r sample_invoice, toPayment sample_payment, toInvoice ?r ?late]"
    unfolding allTrxs_def invoiceTrxs_def paymentTrxs_def sel ref
    by (simp add: js_sort_def sort_compare_def by_date_def t)
  have shown: "map (\<lambda>e. (trxDate e, trxType e, calculatedAmount e)) ?L
     = [(''2024-01-05'', INVOICE, Fin 500), (''2024-01-10'', PAYMENT, Fin (- 200)),
        (''2024-01-20'', INVOICE, Fin 70)]"
    unfolding L
    by (simp add: toInvoice_def toPayment_def sample_invoice_def sample_payment_def)
  have readable: "list_all (readable_date sample_env) ?L"
    unfolding L by (simp add: readable_date_def t)
  from merge_stage [of sample_env ?fs "[sample_payment]" "''ACME Trading''" sample_config
      sample_invoice None]
  have "list_all (readable_date sample_env) ?L \<longrightarrow>
          sorted (map (entry_time sample_env) ?L)
          \<and> ?L = sort_key (entry_time sample_env)
                (map (toInvoice (refTrx [sample_payment] ''ACME Trading''))
                   (filter (in_statement ''ACME Trading'' sample_config) ?fs)
                 @ map toPayment
                     (filter (in_statement ''ACME Trading'' sample_config) [sample_payment]))"
    by (elim conjE)
  with readable have "sorted (map (entry_time sample_env) ?L)"
    by (elim impE conjE)
  with shown show ?thesis
    by (rule conjI)
qed

section \<open>Insertion order\<close>



















text \<open>The doubles that the literals \<open>1.005\<close> and \<open>0.005\<close> denote.\<close>

lemma parseFloat_1_005: "parseFloat ''1.005'' = Fin (1131529406376837 / 1125899906842624)"
  using round_double_near [of 0 "201 / 200" 4526117625507348]
  by (simp add: parseFloat_def is_space_def is_digit_def digits_val_def digit_val_def
      exponent_part_def scale10_def Let_def)

lemma parseFloat_0_005: "parseFloat ''0.005'' = Fin (5764607523034235 / 1152921504606846976)"
  using round_double_near [of "- 8" "1 / 200" 5764607523034235]
  by (simp add: parseFloat_def is_space_def is_digit_def digits_val_def digit_val_def
      exponent_part_def scale10_def Let_def)






end
